theory Spec2Isabelle
  imports Main "HOL-Library.List_Lexorder" "HOL-Library.Char_ord" "HOL-Library.AList"
begin

section \<open>Strings\<close>

text \<open>
  JavaScript strings are modelled as \<^typ>\<open>string\<close>. \<open>String.prototype.toLowerCase\<close> and
  \<open>String.prototype.trim\<close> know the letters and the white space of all of Unicode. The
  lookups and the editors below therefore take the two built-ins as arguments, \<open>lc\<close> and
  \<open>tr\<close>, and what is proved of them holds whatever the two functions do to a string.
  \<open>toLowerCase\<close> and \<open>trim\<close> as defined here are the two built-ins on ASCII text:
  \<open>toLowerCase\<close> maps \<open>A\<close>..\<open>Z\<close> to \<open>a\<close>..\<open>z\<close> and leaves every other character alone,
  \<open>trim\<close> removes the ASCII white space at both ends. The slugs are built with them, and
  the examples, which are ASCII text, are run with them.
\<close>

definition lower_char :: "char \<Rightarrow> char" where
  "lower_char c =
     (if CHR ''A'' \<le> c \<and> c \<le> CHR ''Z'' then char_of (of_char c + (32::nat)) else c)"

definition toLowerCase :: "string \<Rightarrow> string" where
  "toLowerCase s = map lower_char s"

definition is_space :: "char \<Rightarrow> bool" where
  "is_space c \<longleftrightarrow> c \<in> set [CHR '' '', CHR 0x09, CHR 0x0A, CHR 0x0B, CHR 0x0C, CHR 0x0D]"

definition trim :: "string \<Rightarrow> string" where
  "trim s = rev (dropWhile is_space (rev (dropWhile is_space s)))"

text \<open>\<open>s.endsWith(suf)\<close>.\<close>

definition endsWith :: "string \<Rightarrow> string \<Rightarrow> bool" where
  "endsWith s suf \<longleftrightarrow> length suf \<le> length s \<and> drop (length s - length suf) s = suf"

text \<open>
  \<open>path.basename(filename, ext)\<close> for a directory entry (which holds no path separator):
  the extension is cut off when the name ends with it.
\<close>

definition basename :: "string \<Rightarrow> string \<Rightarrow> string" where
  "basename fn ext = (if endsWith fn ext then take (length fn - length ext) fn else fn)"


section \<open>Slugs: \<open>slugify\<close> (lib/profiles) and \<open>toProfileFileKey\<close> (cli)\<close>

text \<open>The character class \<open>[a-z0-9]\<close>.\<close>

definition is_alnum :: "char \<Rightarrow> bool" where
  "is_alnum c \<longleftrightarrow> (CHR ''a'' \<le> c \<and> c \<le> CHR ''z'') \<or> (CHR ''0'' \<le> c \<and> c \<le> CHR ''9'')"

text \<open>
  \<open>.replace(/[^a-z0-9]+/g, '-')\<close>: every maximal run of characters outside the class
  becomes one hyphen.
\<close>

function replace_nonalnum :: "string \<Rightarrow> string" where
  "replace_nonalnum [] = []"
| "replace_nonalnum (c # cs) =
     (if is_alnum c then c # replace_nonalnum cs
      else CHR ''-'' # replace_nonalnum (dropWhile (\<lambda>x. \<not> is_alnum x) cs))"
  by pat_completeness auto
termination
  by (relation "measure length") (auto simp: length_dropWhile_le less_Suc_eq_le)

text \<open>\<open>.replace(/^-+|-+$/g, '')\<close>: the hyphens at the start and at the end go.\<close>

definition strip_hyphens :: "string \<Rightarrow> string" where
  "strip_hyphens s =
     rev (dropWhile (\<lambda>c. c = CHR ''-'') (rev (dropWhile (\<lambda>c. c = CHR ''-'') s)))"

definition slugify :: "string \<Rightarrow> string" where
  "slugify nm =
     (let slug = strip_hyphens (replace_nonalnum (toLowerCase nm))
      in if slug = [] then ''profile'' else slug)"

definition toProfileFileKey :: "string \<Rightarrow> string" where
  "toProfileFileKey nm =
     (let slug = strip_hyphens (replace_nonalnum (toLowerCase (trim nm)))
      in if slug = [] then ''profile'' else slug)"

text \<open>
  The shape of a file key: not empty, made of \<open>[a-z0-9]\<close> and hyphens, no hyphen first
  or last, no two hyphens in a row.
\<close>

definition slug_shape :: "string \<Rightarrow> bool" where
  "slug_shape s \<longleftrightarrow>
     s \<noteq> [] \<and> (\<forall>c\<in>set s. is_alnum c \<or> c = CHR ''-'') \<and>
     hd s \<noteq> CHR ''-'' \<and> last s \<noteq> CHR ''-'' \<and>
     (\<forall>xs ys. s \<noteq> xs @ ''--'' @ ys)"


section \<open>The profiles directory\<close>

text \<open>
  A profile file is represented by what \<open>fs.readJSONSync\<close> gives for it. \<open>Unreadable\<close> is a
  file the \<open>try\<close> block of the loaders gives up on: reading or parsing throws, or the text
  parses to \<open>null\<close>, on which the property access throws. \<open>Parsed n p e\<close> is a file whose
  JSON value has the string \<open>n\<close> under \<open>name\<close>, the string \<open>p\<close> under \<open>provider\<close> and the
  string-valued object \<open>e\<close> under \<open>env\<close>, as the \<open>Profile\<close> interface declares them;
  \<open>None\<close> is a property that is missing (as all three are on a JSON number or string) or
  holds \<open>null\<close>, \<open>false\<close> or \<open>0\<close>. Other properties of the file are never read.

  The directory is an association list from entry names to files, in the order
  \<open>fs.readdirSync\<close> reports them. Entry names are plain file names, and so are the file
  keys the functions build paths from: a key with a path separator in it would name a file in
  another directory, which this flat directory does not show. \<open>Array.prototype.sort\<close> on
  the names is the lexicographic order of the characters' codes. \<open>None\<close> is the state in
  which the profiles directory does not exist.
\<close>

datatype file_body =
  Unreadable
| Parsed "string option" "string option" "(string \<times> string) list option"

type_synonym profiles_dir = "(string \<times> file_body) list"

text \<open>
  The text of a file as \<open>JSON.parse\<close> takes it: text that is not JSON, the value \<open>null\<close>,
  or another JSON value with what it has under \<open>name\<close>, \<open>provider\<close> and \<open>env\<close>.
  \<open>try_body\<close> is what the \<open>try\<close> block of the loaders makes of it, and \<open>on_disk\<close> the
  directory of a list of named texts.
\<close>

datatype file_text =
  NotJSON
| JSON_null
| JSON_value "string option" "string option" "(string \<times> string) list option"

fun parses_as_JSON :: "file_text \<Rightarrow> bool" where
  "parses_as_JSON NotJSON = False"
| "parses_as_JSON JSON_null = True"
| "parses_as_JSON (JSON_value n p e) = True"

fun try_body :: "file_text \<Rightarrow> file_body" where
  "try_body NotJSON = Unreadable"
| "try_body JSON_null = Unreadable"
| "try_body (JSON_value n p e) = Parsed n p e"

definition on_disk :: "(string \<times> file_text) list \<Rightarrow> profiles_dir" where
  "on_disk texts = map (\<lambda>(filename, t). (filename, try_body t)) texts"

type_synonym filesystem = "profiles_dir option"

record profile =
  name :: string
  provider :: string
  env :: "(string \<times> string) list"
  fileKey :: "string option"

datatype js_error = ENOENT | TypeError

definition readdirSync :: "profiles_dir \<Rightarrow> string list" where
  "readdirSync d = map fst d"

text \<open>\<open>x || y\<close> on an optional string: a missing or empty \<open>x\<close> is falsy.\<close>

definition or_else :: "string option \<Rightarrow> string \<Rightarrow> string" where
  "or_else x y = (case x of None \<Rightarrow> y | Some s \<Rightarrow> if s = [] then y else s)"

text \<open>
  The body of the loaders' \<open>try\<close> block: \<open>None\<close> when the \<open>catch\<close> swallows the file.
\<close>

definition read_profile :: "profiles_dir \<Rightarrow> string \<Rightarrow> profile option" where
  "read_profile d filename =
     (case map_of d filename of
        Some (Parsed n p e) \<Rightarrow>
          Some \<lparr>name = or_else n (basename filename ''.json''),
                provider = or_else p (basename filename ''.json''),
                env = (case e of None \<Rightarrow> [] | Some m \<Rightarrow> m),
                fileKey = Some (basename filename ''.json'')\<rparr>
      | _ \<Rightarrow> None)"

text \<open>\<open>loadProfiles\<close> of lib/profiles; the command line's copy is the same function.\<close>

fun loadProfiles_loop :: "profiles_dir \<Rightarrow> string list \<Rightarrow> profile list \<Rightarrow> profile list" where
  "loadProfiles_loop d [] profiles = profiles"
| "loadProfiles_loop d (filename # files) profiles =
     (if \<not> endsWith filename ''.json'' \<or> endsWith filename ''.example.json''
      then loadProfiles_loop d files profiles
      else case read_profile d filename of
             None \<Rightarrow> loadProfiles_loop d files profiles
           | Some p \<Rightarrow> loadProfiles_loop d files (profiles @ [p]))"

definition loadProfiles :: "filesystem \<Rightarrow> profile list" where
  "loadProfiles fs =
     (case fs of
        None \<Rightarrow> []
      | Some d \<Rightarrow> loadProfiles_loop d (sort (readdirSync d)) [])"

text \<open>
  \<open>LocalProfileStore.listProfiles\<close> (config.ts): the same loop; its profiles carry no file
  key.
\<close>

fun listProfiles_loop :: "profiles_dir \<Rightarrow> string list \<Rightarrow> profile list \<Rightarrow> profile list" where
  "listProfiles_loop d [] profiles = profiles"
| "listProfiles_loop d (filename # files) profiles =
     (if \<not> endsWith filename ''.json'' \<or> endsWith filename ''.example.json''
      then listProfiles_loop d files profiles
      else case read_profile d filename of
             None \<Rightarrow> listProfiles_loop d files profiles
           | Some p \<Rightarrow> listProfiles_loop d files (profiles @ [p\<lparr>fileKey := None\<rparr>]))"

definition listProfiles :: "filesystem \<Rightarrow> profile list" where
  "listProfiles fs =
     (case fs of
        None \<Rightarrow> []
      | Some d \<Rightarrow> listProfiles_loop d (sort (readdirSync d)) [])"

text \<open>What \<open>writeJSONSync\<close> leaves in the file: the record without its file key.\<close>

definition toWrite :: "profile \<Rightarrow> file_body" where
  "toWrite p = Parsed (Some (name p)) (Some (provider p)) (Some (env p))"

text \<open>\<open>saveProfile\<close> of lib/profiles, which creates the directory when it is missing.\<close>

definition saveProfile :: "profile \<Rightarrow> filesystem \<Rightarrow> filesystem" where
  "saveProfile p fs =
     (let d = (case fs of None \<Rightarrow> [] | Some d \<Rightarrow> d);
          key = or_else (fileKey p) (slugify (name p));
          filename = key @ ''.json''
      in Some (AList.update filename (toWrite p) d))"

text \<open>
  \<open>saveProfile\<close> of the command line (cli.ts with file keys): no directory is created, so
  the write throws when there is none.
\<close>

definition cli_saveProfile :: "profile \<Rightarrow> filesystem \<Rightarrow> js_error + filesystem" where
  "cli_saveProfile p fs =
     (let key = or_else (fileKey p) (toProfileFileKey (name p))
      in case fs of
           None \<Rightarrow> Inl ENOENT
         | Some d \<Rightarrow> Inr (Some (AList.update (key @ ''.json'') (toWrite p) d)))"

text \<open>
  \<open>LocalProfileStore.saveProfile\<close> (config.ts) and the first command line: the file is
  named after the provider.
\<close>

definition store_saveProfile :: "profile \<Rightarrow> filesystem \<Rightarrow> js_error + filesystem" where
  "store_saveProfile p fs =
     (case fs of
        None \<Rightarrow> Inl ENOENT
      | Some d \<Rightarrow> Inr (Some (AList.update (provider p @ ''.json'') (toWrite p) d)))"

text \<open>\<open>removeProviderProfiles\<close> of lib/profiles.\<close>

fun removeProviderProfiles_loop :: "string \<Rightarrow> string list \<Rightarrow> profiles_dir \<Rightarrow> profiles_dir" where
  "removeProviderProfiles_loop providerId [] d = d"
| "removeProviderProfiles_loop providerId (filename # files) d =
     (if \<not> endsWith filename ''.json'' \<or> endsWith filename ''.example.json''
      then removeProviderProfiles_loop providerId files d
      else case map_of d filename of
             Some (Parsed n p e) \<Rightarrow>
               if p = Some providerId
               then removeProviderProfiles_loop providerId files (AList.delete filename d)
               else removeProviderProfiles_loop providerId files d
           | _ \<Rightarrow> removeProviderProfiles_loop providerId files d)"

definition removeProviderProfiles :: "string \<Rightarrow> filesystem \<Rightarrow> filesystem" where
  "removeProviderProfiles providerId fs =
     (case fs of
        None \<Rightarrow> None
      | Some d \<Rightarrow> Some (removeProviderProfiles_loop providerId (readdirSync d) d))"

text \<open>
  The lookups of the command line (\<open>Array.prototype.find\<close> over the loaded list). \<open>lc\<close>
  stands for \<open>String.prototype.toLowerCase\<close>.
\<close>

definition getProfile :: "(string \<Rightarrow> string) \<Rightarrow> filesystem \<Rightarrow> string \<Rightarrow> profile option" where
  "getProfile lc fs key =
     find (\<lambda>p. provider p = key \<or> lc (name p) = lc key) (loadProfiles fs)"

definition getProfileByName :: "(string \<Rightarrow> string) \<Rightarrow> filesystem \<Rightarrow> string \<Rightarrow> profile option" where
  "getProfileByName lc fs nm =
     find (\<lambda>p. lc (name p) = lc nm) (loadProfiles fs)"

definition getProfileByFileKey :: "filesystem \<Rightarrow> string \<Rightarrow> profile option" where
  "getProfileByFileKey fs key = find (\<lambda>p. fileKey p = Some key) (loadProfiles fs)"

text \<open>\<open>LocalProfileStore.getProfile\<close> and \<open>deleteProfile\<close> (config.ts).\<close>

fun store_getProfile_loop :: "(string \<Rightarrow> string) \<Rightarrow> profile list \<Rightarrow> string \<Rightarrow> profile option" where
  "store_getProfile_loop lc [] nm = None"
| "store_getProfile_loop lc (p # profiles) nm =
     (if lc (name p) = lc nm then Some p
      else if lc (provider p) = lc nm then Some p
      else store_getProfile_loop lc profiles nm)"

definition store_getProfile :: "(string \<Rightarrow> string) \<Rightarrow> filesystem \<Rightarrow> string \<Rightarrow> profile option" where
  "store_getProfile lc fs nm = store_getProfile_loop lc (listProfiles fs) nm"

definition existsSync :: "filesystem \<Rightarrow> string \<Rightarrow> bool" where
  "existsSync fs filename = (case fs of None \<Rightarrow> False | Some d \<Rightarrow> filename \<in> set (readdirSync d))"

definition unlinkSync :: "string \<Rightarrow> filesystem \<Rightarrow> filesystem" where
  "unlinkSync filename fs = map_option (AList.delete filename) fs"

definition store_deleteProfile :: "(string \<Rightarrow> string) \<Rightarrow> string \<Rightarrow> filesystem \<Rightarrow> bool \<times> filesystem" where
  "store_deleteProfile lc nm fs =
     (case store_getProfile lc fs nm of
        None \<Rightarrow> (False, fs)
      | Some p \<Rightarrow>
          let filepath = provider p @ ''.json''
          in (True, if existsSync fs filepath then unlinkSync filepath fs else fs))"

text \<open>
  The file names the loaders and \<open>removeProviderProfiles\<close> do not skip, and the
  \<open>provider\<close> property as it is stored in a file (\<open>data.provider\<close>).
\<close>

definition is_profile_file :: "string \<Rightarrow> bool" where
  "is_profile_file fn \<longleftrightarrow> endsWith fn ''.json'' \<and> \<not> endsWith fn ''.example.json''"

fun stored_provider :: "file_body \<Rightarrow> string option" where
  "stored_provider Unreadable = None"
| "stored_provider (Parsed n p e) = p"

text \<open>A directory to run the functions on.\<close>

definition example_dir :: profiles_dir where
  "example_dir =
     [(''zai.json'', Parsed (Some ''My GLM'') (Some ''glm'') (Some [(''ANTHROPIC_MODEL'', ''GLM-4.7'')])),
      (''broken.json'', Unreadable),
      (''bare.json'', Parsed None None None),
      (''glm.example.json'', Parsed (Some ''Example'') (Some ''glm'') None),
      (''notes.txt'', Unreadable)]"

text \<open>
  Creating or overwriting one file: afterwards \<open>fn\<close> holds \<open>b\<close>, every other name holds
  what it held, the directory has the old names and \<open>fn\<close>, and no name occurs twice if none
  did.
\<close>

definition writes_file :: "profiles_dir \<Rightarrow> string \<Rightarrow> file_body \<Rightarrow> profiles_dir \<Rightarrow> bool" where
  "writes_file d fn b d' \<longleftrightarrow>
     map_of d' fn = Some b \<and> (\<forall>f. f \<noteq> fn \<longrightarrow> map_of d' f = map_of d f) \<and>
     set (readdirSync d') = insert fn (set (readdirSync d)) \<and>
     (distinct (map fst d) \<longrightarrow> distinct (map fst d'))"

text \<open>A profile to run the functions on.\<close>

definition glm_profile :: profile where
  "glm_profile = \<lparr>name = ''My GLM'', provider = ''glm'',
      env = [(''ANTHROPIC_AUTH_TOKEN'', ''secret''), (''ANTHROPIC_MODEL'', ''GLM-4.7'')],
      fileKey = None\<rparr>"

text \<open>
  A directory in which every readable profile file is called \<open><provider>.json\<close>, as
  \<open>LocalProfileStore.saveProfile\<close> names the files it writes.
\<close>

definition provider_named :: "profiles_dir \<Rightarrow> bool" where
  "provider_named d \<longleftrightarrow>
     (\<forall>fn\<in>set (readdirSync d). is_profile_file fn \<longrightarrow>
        (case read_profile d fn of None \<Rightarrow> True | Some p \<Rightarrow> provider p @ ''.json'' = fn))"

definition store_dir :: profiles_dir where
  "store_dir =
     [(''glm.json'', Parsed (Some ''My GLM'') (Some ''glm'') None),
      (''claude.json'', Parsed None None (Some [(''ANTHROPIC_MODEL'', ''claude-sonnet-4-20250514'')])),
      (''claude.example.json'', Parsed (Some ''Example'') (Some ''glm'') None)]"

section \<open>The profile editor of the command line\<close>

text \<open>
  A key press as the \<open>keypress\<close> listeners receive it: the character (\<open>[]\<close> when there is
  none), \<open>key.name\<close> and \<open>key.ctrl\<close>. A run of the program is driven by the list of key
  presses that reach a listener; a function that waits for a key when the list is used up
  has the value \<open>None\<close>. What is drawn on the screen and the pauses after a message are left
  out.
\<close>

record keypress =
  kchar :: string
  kname :: string
  kctrl :: bool

text \<open>
  \<open>prompt\<close> with the listener of \<open>setupStdin\<close>: Escape resolves with the empty string,
  Return with the buffer.
\<close>

fun prompt_loop :: "string \<Rightarrow> keypress list \<Rightarrow> (string \<times> keypress list) option" where
  "prompt_loop inputBuffer [] = None"
| "prompt_loop inputBuffer (k # ks) =
     (if kname k = ''escape'' \<or> kchar k = [CHR 0x1B] then Some ([], ks)
      else if kname k = ''return'' then Some (inputBuffer, ks)
      else if kname k = ''backspace'' \<or> kname k = ''delete''
        then prompt_loop (butlast inputBuffer) ks
      else if length (kchar k) = 1 then prompt_loop (inputBuffer @ kchar k) ks
      else prompt_loop inputBuffer ks)"

definition prompt :: "keypress list \<Rightarrow> (string \<times> keypress list) option" where
  "prompt ks = prompt_loop [] ks"

lemma prompt_loop_length: "prompt_loop b ks = Some (s, ks') \<Longrightarrow> length ks' < length ks"
  by (induction b ks rule: prompt_loop.induct) (auto split: if_splits)

lemma prompt_length: "prompt ks = Some (s, ks') \<Longrightarrow> length ks' < length ks"
  unfolding prompt_def by (rule prompt_loop_length)

record provider_entry =
  id_p :: string
  name_p :: string
  description :: string
  baseUrl :: string
  defaultModel :: string
  authUrl :: "string option"
  authInstructions :: "string option"

definition KNOWN_PROVIDERS :: "provider_entry list" where
  "KNOWN_PROVIDERS =
     [\<lparr>id_p = ''claude'', name_p = ''Anthropic Claude'',
       description = ''Official Anthropic Claude API'',
       baseUrl = ''https://api.anthropic.com'', defaultModel = ''claude-sonnet-4-20250514'',
       authUrl = Some ''https://console.anthropic.com/settings/keys'',
       authInstructions = Some ''Get your API key from the Anthropic Console''\<rparr>,
      \<lparr>id_p = ''glm'', name_p = ''GLM (Zhipu AI)'',
       description = ''Zhipu AI's GLM models'',
       baseUrl = ''https://api.z.ai/api/anthropic'', defaultModel = ''GLM-4.7'',
       authUrl = Some ''https://www.bigmodel.cn/devcenter/apikey'',
       authInstructions = Some ''Get your API key or Coding Plan token from BigModel dashboard''\<rparr>,
      \<lparr>id_p = ''minimax'', name_p = ''MiniMax'',
       description = ''MiniMax AI API'',
       baseUrl = ''https://api.minimax.io/anthropic'', defaultModel = ''MiniMax-M2.1'',
       authUrl = Some ''https://platform.minimax.io/user-center/payment/coding-plan'',
       authInstructions = Some ''Get your API key or Coding Plan token from MiniMax''\<rparr>,
      \<lparr>id_p = ''openrouter'', name_p = ''OpenRouter'',
       description = ''Unified API for multiple LLM providers'',
       baseUrl = ''https://openrouter.ai/api/v1'', defaultModel = ''anthropic/claude-3.5-sonnet'',
       authUrl = Some ''https://openrouter.ai/keys'',
       authInstructions = Some ''Get your API key from OpenRouter''\<rparr>]"

datatype mode = Add | Edit

text \<open>
  How a flow ends: it returns after saving, after a cancellation or after Escape in a menu,
  the process exits, or an exception escapes.
\<close>

datatype flow_end = Saved | Cancelled | Back | Exited | Threw js_error

text \<open>
  Step 0 of \<open>configureProvider\<close>: the profile name and the file key to save under. The four
  tests that send the user back to the prompt are \<open>name_rejected\<close>. In the editors \<open>tr\<close>
  stands for \<open>String.prototype.trim\<close> and \<open>lc\<close> for \<open>String.prototype.toLowerCase\<close>.
\<close>

definition name_rejected ::
  "mode \<Rightarrow> provider_entry \<Rightarrow> profile option \<Rightarrow> profile option \<Rightarrow> bool" where
  "name_rejected mode prov existingByName existingByFileKey \<longleftrightarrow>
     (let otherProvider = (case existingByName of None \<Rightarrow> False
                           | Some e \<Rightarrow> provider e \<noteq> id_p prov)
      in (mode = Add \<and> existingByName \<noteq> None) \<or>
         (mode = Edit \<and> existingByName \<noteq> None \<and> otherProvider) \<or>
         (mode = Add \<and> existingByFileKey \<noteq> None) \<or>
         (mode = Edit \<and> existingByFileKey \<noteq> None \<and> (existingByName = None \<or> otherProvider)))"

function profile_name_step ::
  "(string \<Rightarrow> string) \<Rightarrow> (string \<Rightarrow> string) \<Rightarrow> provider_entry \<Rightarrow> mode \<Rightarrow> filesystem \<Rightarrow> keypress list
     \<Rightarrow> ((string \<times> string option) \<times> keypress list) option" where
  "profile_name_step lc tr prov mode fs ks =
     (case prompt ks of
        None \<Rightarrow> None
      | Some (nameInput, ks') \<Rightarrow>
          (let desiredName = or_else (Some (tr nameInput)) (name_p prov);
               existingByName = getProfileByName lc fs desiredName;
               desiredFileKey = toProfileFileKey desiredName;
               existingByFileKey = getProfileByFileKey fs desiredFileKey
           in if name_rejected mode prov existingByName existingByFileKey
                then profile_name_step lc tr prov mode fs ks'
              else Some ((desiredName,
                          case existingByName of
                            None \<Rightarrow> Some desiredFileKey
                          | Some e \<Rightarrow> if provider e = id_p prov then fileKey e
                                      else Some desiredFileKey), ks')))"
  by pat_completeness auto
termination
  by (relation "measure (\<lambda>(lc, tr, prov, mode, fs, ks). length ks)") (auto dest: prompt_length)

text \<open>Step 2: the choice between the two authentication methods.\<close>

datatype auth_step = Chosen string | AuthCancelled | AuthExit

fun auth_method_loop :: "nat \<Rightarrow> keypress list \<Rightarrow> (auth_step \<times> keypress list) option" where
  "auth_method_loop authMethodSelected [] = None"
| "auth_method_loop authMethodSelected (k # ks) =
     (if kctrl k \<and> kchar k = ''c'' then Some (AuthExit, ks)
      else if kname k = ''up'' \<or> kchar k = ''k''
        then auth_method_loop ((authMethodSelected + 2 - 1) mod 2) ks
      else if kname k = ''down'' \<or> kchar k = ''j''
        then auth_method_loop ((authMethodSelected + 1) mod 2) ks
      else if kname k = ''return''
        then Some (Chosen (if authMethodSelected = 1 then ''oauth'' else ''api''), ks)
      else if kname k = ''escape'' then Some (AuthCancelled, ks)
      else auth_method_loop authMethodSelected ks)"

definition auth_method_step ::
  "provider_entry \<Rightarrow> keypress list \<Rightarrow> (auth_step \<times> keypress list) option" where
  "auth_method_step prov ks =
     (case authUrl prov of
        None \<Rightarrow> Some (Chosen ''api'', ks)
      | Some u \<Rightarrow> if u = [] then Some (Chosen ''api'', ks) else auth_method_loop 0 ks)"

text \<open>The five assignments to \<open>profile.env\<close> before saving.\<close>

definition set_env ::
  "(string \<Rightarrow> string) \<Rightarrow> string \<Rightarrow> string \<Rightarrow> string \<Rightarrow> string \<Rightarrow> (string \<times> string) list \<Rightarrow> (string \<times> string) list" where
  "set_env tr authToken url model timeout e =
     AList.update ''CLAUDE_CODE_DISABLE_NONESSENTIAL_TRAFFIC'' ''1''
       (AList.update ''API_TIMEOUT_MS'' timeout
         (AList.update ''ANTHROPIC_MODEL'' model
           (AList.update ''ANTHROPIC_BASE_URL'' url
             (AList.update ''ANTHROPIC_AUTH_TOKEN'' (tr authToken) e))))"

text \<open>
  \<open>configureProvider\<close> (cli.ts with file keys). Both branches of the authentication step
  read the token with \<open>prompt\<close>; they differ in what they print and in opening the browser.
\<close>

definition configureProvider ::
  "(string \<Rightarrow> string) \<Rightarrow> (string \<Rightarrow> string) \<Rightarrow> provider_entry \<Rightarrow> mode \<Rightarrow> filesystem \<Rightarrow> keypress list
     \<Rightarrow> (flow_end \<times> filesystem \<times> keypress list) option" where
  "configureProvider lc tr prov mode fs ks0 =
     (case profile_name_step lc tr prov mode fs ks0 of
        None \<Rightarrow> None
      | Some ((profileName, profileFileKey), ks1) \<Rightarrow>
     (case prompt ks1 of
        None \<Rightarrow> None
      | Some (urlInput, ks2) \<Rightarrow>
     (case auth_method_step prov ks2 of
        None \<Rightarrow> None
      | Some (AuthExit, ks3) \<Rightarrow> Some (Exited, fs, ks3)
      | Some (AuthCancelled, ks3) \<Rightarrow> Some (Cancelled, fs, ks3)
      | Some (Chosen authMethodChosen, ks3) \<Rightarrow>
     (case prompt ks3 of
        None \<Rightarrow> None
      | Some (authToken, ks4) \<Rightarrow>
          if tr authToken = [] then Some (Cancelled, fs, ks4)
          else
     (case prompt ks4 of
        None \<Rightarrow> None
      | Some (modelInput, ks5) \<Rightarrow>
     (case prompt ks5 of
        None \<Rightarrow> None
      | Some (timeoutInput, ks6) \<Rightarrow>
          (let url = (if tr urlInput \<noteq> [] then tr urlInput else baseUrl prov);
               model = or_else (Some (tr modelInput)) (defaultModel prov);
               timeout = or_else (Some (tr timeoutInput)) ''3000000'';
               existing = (case getProfileByName lc fs profileName of
                             None \<Rightarrow> \<lparr>name = profileName, provider = id_p prov, env = [],
                                       fileKey = profileFileKey\<rparr>
                           | Some e \<Rightarrow> e);
               p = \<lparr>name = profileName, provider = id_p prov,
                    env = set_env tr authToken url model timeout (env existing),
                    fileKey = profileFileKey\<rparr>
           in case cli_saveProfile p fs of
                Inl e \<Rightarrow> Some (Threw e, fs, ks6)
              | Inr fs' \<Rightarrow> Some (Saved, fs', ks6))))))))"

lemma profile_name_step_length:
  "profile_name_step lc tr prov mode fs ks = Some (r, ks') \<Longrightarrow> length ks' < length ks"
proof (induction lc tr prov mode fs ks rule: profile_name_step.induct)
  case (1 lc tr prov mode fs ks)
  from "1.prems" obtain nameInput ks1 where p: "prompt ks = Some (nameInput, ks1)"
    by (subst (asm) profile_name_step.simps) (auto split: option.splits)
  have l: "length ks1 < length ks" using p by (rule prompt_length)
  let ?n = "or_else (Some (tr nameInput)) (name_p prov)"
  show ?case
  proof (cases "name_rejected mode prov (getProfileByName lc fs ?n)
                  (getProfileByFileKey fs (toProfileFileKey ?n))")
    case True
    with "1.prems" p have "profile_name_step lc tr prov mode fs ks1 = Some (r, ks')"
      by (subst (asm) profile_name_step.simps) (simp add: Let_def)
    with "1.IH" [OF p refl refl refl refl refl True] have "length ks' < length ks1" .
    with l show ?thesis by simp
  next
    case False
    with "1.prems" p have "ks' = ks1"
      by (subst (asm) profile_name_step.simps) (auto simp: Let_def)
    with l show ?thesis by simp
  qed
qed

lemma auth_method_loop_length:
  "auth_method_loop n ks = Some (r, ks') \<Longrightarrow> length ks' < length ks"
  by (induction n ks rule: auth_method_loop.induct) (auto split: if_splits)

lemma auth_method_step_length:
  "auth_method_step prov ks = Some (r, ks') \<Longrightarrow> length ks' \<le> length ks"
  by (auto simp: auth_method_step_def split: option.splits if_splits
      dest: auth_method_loop_length)

lemma configureProvider_length:
  assumes "configureProvider lc tr prov mode fs ks = Some (e, fs', ks')"
  shows "length ks' < length ks"
proof (cases "profile_name_step lc tr prov mode fs ks")
  case None
  with assms show ?thesis by (simp add: configureProvider_def)
next
  case (Some x1)
  obtain n fk ks1 where x1: "x1 = ((n, fk), ks1)" by (metis surj_pair)
  note 1 = Some [unfolded x1]
  have l1: "length ks1 < length ks" using 1 by (rule profile_name_step_length)
  show ?thesis
  proof (cases "prompt ks1")
    case None
    with assms 1 show ?thesis by (simp add: configureProvider_def)
  next
    case (Some x2)
    obtain u ks2 where x2: "x2 = (u, ks2)" by (metis surj_pair)
    note 2 = Some [unfolded x2]
    have l2: "length ks2 < length ks" using l1 prompt_length [OF 2] by simp
    show ?thesis
    proof (cases "auth_method_step prov ks2")
      case None
      with assms 1 2 show ?thesis by (simp add: configureProvider_def)
    next
      case (Some x3)
      obtain a ks3 where x3: "x3 = (a, ks3)" by (metis surj_pair)
      note 3 = Some [unfolded x3]
      have l3: "length ks3 < length ks" using l2 auth_method_step_length [OF 3] by simp
      show ?thesis
      proof (cases a)
        case AuthCancelled
        with assms 1 2 3 l3 show ?thesis by (simp add: configureProvider_def)
      next
        case AuthExit
        with assms 1 2 3 l3 show ?thesis by (simp add: configureProvider_def)
      next
        case (Chosen m)
        note 3 = 3 [unfolded Chosen]
        show ?thesis
        proof (cases "prompt ks3")
          case None
          with assms 1 2 3 show ?thesis by (simp add: configureProvider_def)
        next
          case (Some x4)
          obtain t ks4 where x4: "x4 = (t, ks4)" by (metis surj_pair)
          note 4 = Some [unfolded x4]
          have l4: "length ks4 < length ks" using l3 prompt_length [OF 4] by simp
          show ?thesis
          proof (cases "tr t = []")
            case True
            with assms 1 2 3 4 l4 show ?thesis by (simp add: configureProvider_def)
          next
            case False
            show ?thesis
            proof (cases "prompt ks4")
              case None
              with assms 1 2 3 4 False show ?thesis by (simp add: configureProvider_def)
            next
              case (Some x5)
              obtain m' ks5 where x5: "x5 = (m', ks5)" by (metis surj_pair)
              note 5 = Some [unfolded x5]
              have l5: "length ks5 < length ks" using l4 prompt_length [OF 5] by simp
              show ?thesis
              proof (cases "prompt ks5")
                case None
                with assms 1 2 3 4 5 False show ?thesis by (simp add: configureProvider_def)
              next
                case (Some x6)
                obtain t' ks6 where x6: "x6 = (t', ks6)" by (metis surj_pair)
                note 6 = Some [unfolded x6]
                have l6: "length ks6 < length ks" using l5 prompt_length [OF 6] by simp
                from assms 1 2 3 4 5 6 False have "ks' = ks6"
                  by (simp add: configureProvider_def Let_def split: sum.splits)
                with l6 show ?thesis by simp
              qed
            qed
          qed
        qed
      qed
    qed
  qed
qed

text \<open>\<open>addCustomProfile\<close>: the provider is made from the answers, then configured.\<close>

function provider_name_step :: "(string \<Rightarrow> string) \<Rightarrow> keypress list \<Rightarrow> (string \<times> keypress list) option" where
  "provider_name_step tr ks =
     (case prompt ks of
        None \<Rightarrow> None
      | Some (providerName, ks') \<Rightarrow>
          if tr providerName = [] then provider_name_step tr ks' else Some (providerName, ks'))"
  by pat_completeness auto
termination
  by (relation "measure (\<lambda>(tr, ks). length ks)") (auto dest: prompt_length)

lemma provider_name_step_length:
  "provider_name_step tr ks = Some (r, ks') \<Longrightarrow> length ks' < length ks"
proof (induction tr ks rule: provider_name_step.induct)
  case (1 tr ks)
  from "1.prems" obtain s ks1 where p: "prompt ks = Some (s, ks1)"
    by (subst (asm) provider_name_step.simps) (auto split: option.splits)
  have l: "length ks1 < length ks" using p by (rule prompt_length)
  show ?case
  proof (cases "tr s = []")
    case True
    with "1.prems" p have "provider_name_step tr ks1 = Some (r, ks')"
      by (subst (asm) provider_name_step.simps) simp
    with "1.IH" [OF p refl True] have "length ks' < length ks1" .
    with l show ?thesis by simp
  next
    case False
    with "1.prems" p have "ks' = ks1"
      by (subst (asm) provider_name_step.simps) simp
    with l show ?thesis by simp
  qed
qed

text \<open>The provider record \<open>addCustomProfile\<close> builds from the five answers.\<close>

definition custom_provider ::
  "(string \<Rightarrow> string) \<Rightarrow> string \<Rightarrow> string \<Rightarrow> string \<Rightarrow> string \<Rightarrow> string \<Rightarrow> provider_entry" where
  "custom_provider tr providerName baseUrlInput defaultModelInput authUrlInput
       authInstructionsInput =
     \<lparr>id_p = toProfileFileKey providerName, name_p = providerName,
      description = ''Custom provider'', baseUrl = tr baseUrlInput,
      defaultModel = or_else (Some (tr defaultModelInput)) ''model'',
      authUrl = (if tr authUrlInput = [] then None else Some (tr authUrlInput)),
      authInstructions = (if tr authInstructionsInput = [] then None
                          else Some (tr authInstructionsInput))\<rparr>"

definition addCustomProfile ::
  "(string \<Rightarrow> string) \<Rightarrow> (string \<Rightarrow> string) \<Rightarrow> filesystem \<Rightarrow> keypress list \<Rightarrow> (flow_end \<times> filesystem \<times> keypress list) option" where
  "addCustomProfile lc tr fs ks0 =
     (case provider_name_step tr ks0 of
        None \<Rightarrow> None
      | Some (providerName, ks1) \<Rightarrow>
     (case prompt ks1 of
        None \<Rightarrow> None
      | Some (baseUrlInput, ks2) \<Rightarrow>
          if tr baseUrlInput = [] then Some (Cancelled, fs, ks2)
          else
     (case prompt ks2 of
        None \<Rightarrow> None
      | Some (defaultModelInput, ks3) \<Rightarrow>
     (case prompt ks3 of
        None \<Rightarrow> None
      | Some (authUrlInput, ks4) \<Rightarrow>
     (case prompt ks4 of
        None \<Rightarrow> None
      | Some (authInstructionsInput, ks5) \<Rightarrow>
          configureProvider lc tr
            (custom_provider tr providerName baseUrlInput defaultModelInput authUrlInput
               authInstructionsInput)
            Add fs ks5)))))"

lemma addCustomProfile_length:
  assumes "addCustomProfile lc tr fs ks = Some (e, fs', ks')"
  shows "length ks' < length ks"
proof (cases "provider_name_step tr ks")
  case None
  with assms show ?thesis by (simp add: addCustomProfile_def)
next
  case (Some x1)
  obtain n ks1 where x1: "x1 = (n, ks1)" by (metis surj_pair)
  note 1 = Some [unfolded x1]
  have l1: "length ks1 < length ks" using 1 by (rule provider_name_step_length)
  show ?thesis
  proof (cases "prompt ks1")
    case None
    with assms 1 show ?thesis by (simp add: addCustomProfile_def)
  next
    case (Some x2)
    obtain u ks2 where x2: "x2 = (u, ks2)" by (metis surj_pair)
    note 2 = Some [unfolded x2]
    have l2: "length ks2 < length ks" using l1 prompt_length [OF 2] by simp
    show ?thesis
    proof (cases "tr u = []")
      case True
      with assms 1 2 l2 show ?thesis by (simp add: addCustomProfile_def)
    next
      case False
      show ?thesis
      proof (cases "prompt ks2")
        case None
        with assms 1 2 False show ?thesis by (simp add: addCustomProfile_def)
      next
        case (Some x3)
        obtain m ks3 where x3: "x3 = (m, ks3)" by (metis surj_pair)
        note 3 = Some [unfolded x3]
        have l3: "length ks3 < length ks" using l2 prompt_length [OF 3] by simp
        show ?thesis
        proof (cases "prompt ks3")
          case None
          with assms 1 2 3 False show ?thesis by (simp add: addCustomProfile_def)
        next
          case (Some x4)
          obtain a ks4 where x4: "x4 = (a, ks4)" by (metis surj_pair)
          note 4 = Some [unfolded x4]
          have l4: "length ks4 < length ks" using l3 prompt_length [OF 4] by simp
          show ?thesis
          proof (cases "prompt ks4")
            case None
            with assms 1 2 3 4 False show ?thesis by (simp add: addCustomProfile_def)
          next
            case (Some x5)
            obtain i ks5 where x5: "x5 = (i, ks5)" by (metis surj_pair)
            note 5 = Some [unfolded x5]
            have l5: "length ks5 < length ks" using l4 prompt_length [OF 5] by simp
            from assms 1 2 3 4 5 False obtain pr where
              "configureProvider lc tr pr Add fs ks5 = Some (e, fs', ks')"
              by (simp add: addCustomProfile_def)
            from configureProvider_length [OF this] l5 show ?thesis by simp
          qed
        qed
      qed
    qed
  qed
qed

text \<open>
  The menus. \<open>provider_flow\<close> is \<open>configureProvider(KNOWN_PROVIDERS[i], mode)\<close>; an index
  outside the table would pass \<open>undefined\<close>, on which the first property access throws.
  After a flow that returned, the menu is drawn again and goes on with the next key; an exit
  of the process or an exception ends it.
\<close>

definition totalItems :: nat where
  "totalItems = length KNOWN_PROVIDERS + 1"

definition provider_flow ::
  "(string \<Rightarrow> string) \<Rightarrow> (string \<Rightarrow> string) \<Rightarrow> mode \<Rightarrow> nat \<Rightarrow> filesystem \<Rightarrow> keypress list
     \<Rightarrow> (flow_end \<times> filesystem \<times> keypress list) option" where
  "provider_flow lc tr mode i fs ks =
     (if i < length KNOWN_PROVIDERS then configureProvider lc tr (KNOWN_PROVIDERS ! i) mode fs ks
      else Some (Threw TypeError, fs, ks))"

fun returned :: "flow_end \<Rightarrow> bool" where
  "returned Exited = False"
| "returned (Threw e) = False"
| "returned _ = True"

lemma provider_flow_length:
  "provider_flow lc tr mode i fs ks = Some (e, fs', ks') \<Longrightarrow> length ks' \<le> length ks"
  by (auto simp: provider_flow_def split: if_splits dest: configureProvider_length)

function addNewProfileFlow_loop ::
  "(string \<Rightarrow> string) \<Rightarrow> (string \<Rightarrow> string) \<Rightarrow> nat \<Rightarrow> filesystem \<Rightarrow> keypress list \<Rightarrow> (flow_end \<times> filesystem \<times> keypress list) option" where
  "addNewProfileFlow_loop lc tr selected fs [] = None"
| "addNewProfileFlow_loop lc tr selected fs (k # ks) =
     (if kctrl k \<and> kchar k = ''c'' then Some (Exited, fs, ks)
      else if kname k = ''up'' \<or> kchar k = ''k''
        then addNewProfileFlow_loop lc tr ((selected + totalItems - 1) mod totalItems) fs ks
      else if kname k = ''down'' \<or> kchar k = ''j''
        then addNewProfileFlow_loop lc tr ((selected + 1) mod totalItems) fs ks
      else if kname k = ''return''
        then (case (if selected = 0 then addCustomProfile lc tr fs ks
                    else provider_flow lc tr Add (selected - 1) fs ks) of
                None \<Rightarrow> None
              | Some (e, fs', ks') \<Rightarrow>
                  if returned e then addNewProfileFlow_loop lc tr selected fs' ks'
                  else Some (e, fs', ks'))
      else if kname k = ''escape'' then Some (Back, fs, ks)
      else addNewProfileFlow_loop lc tr selected fs ks)"
  by pat_completeness auto
termination
  by (relation "measure (\<lambda>(lc, tr, selected, fs, ks). length ks)")
     (auto split: if_splits dest: addCustomProfile_length provider_flow_length)

definition addNewProfileFlow ::
  "(string \<Rightarrow> string) \<Rightarrow> (string \<Rightarrow> string) \<Rightarrow> filesystem \<Rightarrow> keypress list \<Rightarrow> (flow_end \<times> filesystem \<times> keypress list) option" where
  "addNewProfileFlow lc tr fs ks = addNewProfileFlow_loop lc tr 0 fs ks"

lemma addNewProfileFlow_loop_length:
  "addNewProfileFlow_loop lc tr selected fs ks = Some (e, fs', ks') \<Longrightarrow> length ks' < length ks"
proof (induction lc tr selected fs ks rule: addNewProfileFlow_loop.induct)
  case (1 lc tr selected fs)
  then show ?case by simp
next
  case (2 lc tr selected fs k ks)
  show ?case
  proof (cases "kctrl k \<and> kchar k = ''c''")
    case True
    with "2.prems" show ?thesis by simp
  next
    case c1: False
    show ?thesis
    proof (cases "kname k = ''up'' \<or> kchar k = ''k''")
      case True
      with "2.prems" c1 have
        "addNewProfileFlow_loop lc tr ((selected + totalItems - 1) mod totalItems) fs ks = Some (e, fs', ks')"
        by simp
      from "2.IH"(1) [OF c1 True this] show ?thesis by simp
    next
      case c2: False
      show ?thesis
      proof (cases "kname k = ''down'' \<or> kchar k = ''j''")
        case True
        with "2.prems" c1 c2 have
          "addNewProfileFlow_loop lc tr ((selected + 1) mod totalItems) fs ks = Some (e, fs', ks')"
          by simp
        from "2.IH"(2) [OF c1 c2 True this] show ?thesis by simp
      next
        case c3: False
        show ?thesis
        proof (cases "kname k = ''return''")
          case c4: True
          let ?sub = "if selected = 0 then addCustomProfile lc tr fs ks
                      else provider_flow lc tr Add (selected - 1) fs ks"
          show ?thesis
          proof (cases ?sub)
            case None
            with "2.prems" c1 c2 c3 c4 show ?thesis by simp
          next
            case (Some x)
            obtain e1 fs1 ks1 where x: "x = (e1, fs1, ks1)" by (metis surj_pair)
            note s = Some [unfolded x]
            have l: "length ks1 \<le> length ks"
              using s by (auto split: if_splits dest: addCustomProfile_length provider_flow_length)
            show ?thesis
            proof (cases "returned e1")
              case r: True
              with "2.prems" c1 c2 c3 c4 s
              have "addNewProfileFlow_loop lc tr selected fs1 ks1 = Some (e, fs', ks')"
                by simp
              from "2.IH"(3) [OF c1 c2 c3 c4 s refl refl r this] l show ?thesis by simp
            next
              case False
              with "2.prems" c1 c2 c3 c4 s l show ?thesis by simp
            qed
          qed
        next
          case c4: False
          show ?thesis
          proof (cases "kname k = ''escape''")
            case True
            with "2.prems" c1 c2 c3 c4 show ?thesis by simp
          next
            case c5: False
            with "2.prems" c1 c2 c3 c4 have
              "addNewProfileFlow_loop lc tr selected fs ks = Some (e, fs', ks')"
              by simp
            from "2.IH"(4) [OF c1 c2 c3 c4 c5 this] show ?thesis by simp
          qed
        qed
      qed
    qed
  qed
qed

lemma addNewProfileFlow_length:
  "addNewProfileFlow lc tr fs ks = Some (e, fs', ks') \<Longrightarrow> length ks' \<le> length ks"
  unfolding addNewProfileFlow_def using addNewProfileFlow_loop_length less_imp_le by blast

text \<open>\<open>configure\<close>: the configure view, with \<open>selected\<close> the highlighted row.\<close>

function configure_loop ::
  "(string \<Rightarrow> string) \<Rightarrow> (string \<Rightarrow> string) \<Rightarrow> nat \<Rightarrow> filesystem \<Rightarrow> keypress list \<Rightarrow> (flow_end \<times> filesystem \<times> keypress list) option" where
  "configure_loop lc tr selected fs [] = None"
| "configure_loop lc tr selected fs (k # ks) =
     (if kctrl k \<and> kchar k = ''c'' then Some (Exited, fs, ks)
      else if kname k = ''up'' \<or> kchar k = ''k''
        then configure_loop lc tr ((selected + totalItems - 1) mod totalItems) fs ks
      else if kname k = ''down'' \<or> kchar k = ''j''
        then configure_loop lc tr ((selected + 1) mod totalItems) fs ks
      else if kname k = ''return''
        then (case (if selected = 0 then addNewProfileFlow lc tr fs ks
                    else provider_flow lc tr Edit (selected - 1) fs ks) of
                None \<Rightarrow> None
              | Some (e, fs', ks') \<Rightarrow>
                  if returned e then configure_loop lc tr selected fs' ks'
                  else Some (e, fs', ks'))
      else if kname k = ''escape'' then Some (Back, fs, ks)
      else configure_loop lc tr selected fs ks)"
  by pat_completeness auto
termination
  by (relation "measure (\<lambda>(lc, tr, selected, fs, ks). length ks)")
     (auto split: if_splits dest: addNewProfileFlow_length provider_flow_length)

definition configure ::
  "(string \<Rightarrow> string) \<Rightarrow> (string \<Rightarrow> string) \<Rightarrow> filesystem \<Rightarrow> keypress list \<Rightarrow> (flow_end \<times> filesystem \<times> keypress list) option" where
  "configure lc tr fs ks = configure_loop lc tr 0 fs ks"

text \<open>
  The first command line (cli.ts without file keys): \<open>loadProfiles\<close> there is the loop of
  \<open>listProfiles\<close>, \<open>saveProfile\<close> writes \<open><provider>.json\<close>, and \<open>configureProvider\<close> asks
  for the authentication method on a prompt.
\<close>

definition getProfile_v1 :: "(string \<Rightarrow> string) \<Rightarrow> filesystem \<Rightarrow> string \<Rightarrow> profile option" where
  "getProfile_v1 lc fs key =
     find (\<lambda>p. provider p = key \<or> lc (name p) = lc key) (listProfiles fs)"

definition configureProvider_v1 ::
  "(string \<Rightarrow> string) \<Rightarrow> (string \<Rightarrow> string) \<Rightarrow> provider_entry \<Rightarrow> filesystem \<Rightarrow> keypress list
     \<Rightarrow> (flow_end \<times> filesystem \<times> keypress list) option" where
  "configureProvider_v1 lc tr prov fs ks0 =
     (case prompt ks0 of
        None \<Rightarrow> None
      | Some (urlInput, ks1) \<Rightarrow>
     (case prompt ks1 of
        None \<Rightarrow> None
      | Some (authMethodInput, ks2) \<Rightarrow>
     (case prompt ks2 of
        None \<Rightarrow> None
      | Some (authToken, ks3) \<Rightarrow>
          if tr authToken = [] then Some (Cancelled, fs, ks3)
          else
     (case prompt ks3 of
        None \<Rightarrow> None
      | Some (modelInput, ks4) \<Rightarrow>
     (case prompt ks4 of
        None \<Rightarrow> None
      | Some (timeoutInput, ks5) \<Rightarrow>
          (let url = (if tr urlInput \<noteq> [] then tr urlInput else baseUrl prov);
               model = or_else (Some (tr modelInput)) (defaultModel prov);
               timeout = or_else (Some (tr timeoutInput)) ''3000000'';
               existing = (case getProfile_v1 lc fs (id_p prov) of
                             None \<Rightarrow> \<lparr>name = name_p prov, provider = id_p prov, env = [],
                                       fileKey = None\<rparr>
                           | Some e \<Rightarrow> e);
               p = existing\<lparr>env := set_env tr authToken url model timeout (env existing)\<rparr>
           in case store_saveProfile p fs of
                Inl e \<Rightarrow> Some (Threw e, fs, ks5)
              | Inr fs' \<Rightarrow> Some (Saved, fs', ks5)))))))"


section \<open>The profile editor of the ink application\<close>

text \<open>
  \<open>ProfileEditorView\<close> (ui/ProfileEditorView.tsx) keeps the four field values, the index of
  the active field and an error message; its \<open>useInput\<close> handler gets the typed text and
  the flags of the key. The handler changes the state or calls \<open>onComplete\<close> or
  \<open>onCancel\<close>; what these do is in \<open>App\<close> (cli.tsx).
\<close>

record ink_key =
  input_k :: string
  escape_k :: bool
  return_k :: bool
  tab_k :: bool
  upArrow :: bool
  downArrow :: bool
  backspace_k :: bool
  delete_k :: bool
  ctrl_k :: bool
  meta_k :: bool

record editor_values =
  v_profileName :: string
  v_baseUrl :: string
  v_model :: string
  v_token :: string

record editor_state =
  activeIndex :: nat
  error_msg :: "string option"
  values_e :: editor_values

record OnboardingData =
  o_profileName :: string
  o_token :: string
  o_baseUrl :: string
  o_model :: string

datatype editor_call = OnComplete OnboardingData | OnCancel

definition providerName :: "profile \<Rightarrow> string" where
  "providerName p = or_else (map_of (env p) ''PROVIDER_NAME'') (provider p)"

definition existingName :: "profile \<Rightarrow> string" where
  "existingName p = or_else (Some (name p)) (providerName p)"

definition existingBaseUrl :: "profile \<Rightarrow> string" where
  "existingBaseUrl p = or_else (map_of (env p) ''ANTHROPIC_BASE_URL'') []"

definition existingModel :: "profile \<Rightarrow> string" where
  "existingModel p = or_else (map_of (env p) ''ANTHROPIC_MODEL'') ''model''"

definition existingToken :: "profile \<Rightarrow> string" where
  "existingToken p = or_else (map_of (env p) ''ANTHROPIC_AUTH_TOKEN'') []"

definition initial_editor :: "profile \<Rightarrow> editor_state" where
  "initial_editor p =
     \<lparr>activeIndex = 0, error_msg = None,
      values_e = \<lparr>v_profileName = existingName p, v_baseUrl = existingBaseUrl p,
                  v_model = existingModel p, v_token = existingToken p\<rparr>\<rparr>"

text \<open>The field with index \<open>i\<close> of \<open>fields\<close>, changed by \<open>f\<close>.\<close>

definition map_field :: "nat \<Rightarrow> (string \<Rightarrow> string) \<Rightarrow> editor_values \<Rightarrow> editor_values" where
  "map_field i f v =
     (if i = 0 then v\<lparr>v_profileName := f (v_profileName v)\<rparr>
      else if i = 1 then v\<lparr>v_baseUrl := f (v_baseUrl v)\<rparr>
      else if i = 2 then v\<lparr>v_model := f (v_model v)\<rparr>
      else v\<lparr>v_token := f (v_token v)\<rparr>)"

definition ProfileEditorView_input ::
  "(string \<Rightarrow> string) \<Rightarrow> profile \<Rightarrow> editor_state \<Rightarrow> ink_key \<Rightarrow> editor_state \<times> editor_call option" where
  "ProfileEditorView_input tr p st key =
     (if escape_k key then (st, Some OnCancel)
      else if return_k key \<or> input_k key = [CHR 0x0D] \<or> input_k key = [CHR 0x0A] then
        (if tr (v_token (values_e st)) = []
         then (st\<lparr>error_msg := Some ''Token is required''\<rparr>, None)
         else (st, Some (OnComplete
                 \<lparr>o_profileName = or_else (Some (tr (v_profileName (values_e st)))) (existingName p),
                  o_token = tr (v_token (values_e st)),
                  o_baseUrl = or_else (Some (tr (v_baseUrl (values_e st)))) (existingBaseUrl p),
                  o_model = or_else (Some (tr (v_model (values_e st)))) (existingModel p)\<rparr>)))
      else if tab_k key \<or> downArrow key then (st\<lparr>activeIndex := (activeIndex st + 1) mod 4\<rparr>, None)
      else if upArrow key then (st\<lparr>activeIndex := (activeIndex st + 4 - 1) mod 4\<rparr>, None)
      else if backspace_k key \<or> delete_k key
        then (st\<lparr>values_e := map_field (activeIndex st) butlast (values_e st)\<rparr>, None)
      else if input_k key \<noteq> [] \<and> length (input_k key) = 1 \<and> \<not> ctrl_k key \<and> \<not> meta_k key
        then (st\<lparr>values_e := map_field (activeIndex st) (\<lambda>s. s @ input_k key) (values_e st),
                  error_msg := None\<rparr>, None)
      else (st, None))"

text \<open>
  The part of \<open>App\<close> (cli.tsx) the editor is mounted in: the view stack, the index of the
  main menu, whether Escape is armed to exit, whether the process still runs, the profile
  being edited (the editor shows while there is one), the editor's state and the files.
\<close>

datatype view = MainView | SwitchView | ConfigureView | ListView

record app =
  viewStack :: "view list"
  menuIndex :: nat
  escExitArmed :: bool
  running :: bool
  selectedProfile :: "profile option"
  editor :: editor_state
  disk :: filesystem

definition menuItems :: "view list" where
  "menuItems = [SwitchView, ConfigureView, ListView]"

text \<open>\<open>viewStack[viewStack.length - 1] || 'main'\<close>, \<open>pushView\<close> and \<open>popView\<close>.\<close>

definition current_view :: "app \<Rightarrow> view" where
  "current_view a = (if viewStack a = [] then MainView else last (viewStack a))"

definition pushView :: "view \<Rightarrow> app \<Rightarrow> app" where
  "pushView nextView a = a\<lparr>viewStack := viewStack a @ [nextView]\<rparr>"

definition popView :: "app \<Rightarrow> app" where
  "popView a = (if length (viewStack a) > 1 then a\<lparr>viewStack := butlast (viewStack a)\<rparr> else a)"

text \<open>
  A handler of \<open>useInput\<close> is a closure of a render: the state variables it reads are those
  of the state \<open>r\<close> that was rendered, while its updates go to the state \<open>a\<close> as it is when
  the handler runs. The reference \<open>escExitArmedRef\<close> is read as it is. After
  \<open>process.exit\<close>, or an exception in a handler, the process does not run any more. The
  timer that disarms Escape after 800 ms is \<open>esc_timer\<close>.
\<close>

definition App_input :: "ink_key \<Rightarrow> app \<Rightarrow> app \<Rightarrow> app" where
  "App_input key r a =
     (if ctrl_k key \<and> input_k key = ''c'' then a\<lparr>running := False\<rparr>
      else if input_k key = ''q'' then
        (if current_view r = MainView then a\<lparr>running := False\<rparr>
         else (popView a)\<lparr>selectedProfile := None\<rparr>)
      else if current_view r = MainView \<and> (input_k key = ''j'' \<or> downArrow key)
        then a\<lparr>menuIndex := (menuIndex r + 1) mod length menuItems\<rparr>
      else if current_view r = MainView \<and> (input_k key = ''k'' \<or> upArrow key)
        then a\<lparr>menuIndex := (menuIndex r + length menuItems - 1) mod length menuItems\<rparr>
      else if current_view r = MainView \<and>
              (return_k key \<or> input_k key = '' '' \<or> input_k key = [CHR 0x0D] \<or>
               input_k key = [CHR 0x0A])
        then (if menuIndex r < length menuItems then pushView (menuItems ! menuIndex r) a
              else a\<lparr>running := False\<rparr>)
      else if escape_k key \<or> input_k key = [CHR 0x1B] then
        (if current_view r = MainView
         then (if escExitArmed a then a\<lparr>running := False\<rparr> else a\<lparr>escExitArmed := True\<rparr>)
         else (popView a)\<lparr>selectedProfile := None\<rparr>)
      else a)"

definition esc_timer :: "app \<Rightarrow> app" where
  "esc_timer a = a\<lparr>escExitArmed := False\<rparr>"

definition handleConfigureProfile :: "profile \<Rightarrow> app \<Rightarrow> app" where
  "handleConfigureProfile p a = a\<lparr>selectedProfile := Some p, editor := initial_editor p\<rparr>"

definition handleOnboardingComplete :: "OnboardingData \<Rightarrow> app \<Rightarrow> app \<Rightarrow> app" where
  "handleOnboardingComplete data r a =
     (let fs' = (case selectedProfile r of
                   None \<Rightarrow> disk a
                 | Some sel \<Rightarrow>
                     saveProfile
                       \<lparr>name = o_profileName data, provider = provider sel,
                        env = AList.update ''ANTHROPIC_MODEL'' (o_model data)
                                (AList.update ''ANTHROPIC_BASE_URL'' (o_baseUrl data)
                                  (AList.update ''ANTHROPIC_AUTH_TOKEN'' (o_token data) (env sel))),
                        fileKey = fileKey sel\<rparr>
                       (disk a))
      in a\<lparr>disk := fs', selectedProfile := None, viewStack := [MainView, ListView]\<rparr>)"

text \<open>The editor's handler in \<open>App\<close>, with \<open>onComplete\<close> and \<open>onCancel\<close> as \<open>App\<close> passes them.\<close>

definition editor_input :: "(string \<Rightarrow> string) \<Rightarrow> ink_key \<Rightarrow> app \<Rightarrow> app \<Rightarrow> app" where
  "editor_input tr key r a =
     (case selectedProfile r of
        None \<Rightarrow> a
      | Some p \<Rightarrow>
          (case ProfileEditorView_input tr p (editor r) key of
             (st, None) \<Rightarrow> a\<lparr>editor := st\<rparr>
           | (st, Some OnCancel) \<Rightarrow> a\<lparr>selectedProfile := None\<rparr>
           | (st, Some (OnComplete data)) \<Rightarrow> handleOnboardingComplete data r a))"

text \<open>
  A key pressed while the editor shows. The handlers of \<open>App\<close> and of the editor both get
  it, each as the closure of the last render \<open>a\<close>; which of the two is called first depends
  on which component rendered last, so the order is an argument. (Without a selected
  profile only the handler of \<open>App\<close> is given here: those of the other views are not part of
  this model.)
\<close>

definition editor_key :: "(string \<Rightarrow> string) \<Rightarrow> bool \<Rightarrow> ink_key \<Rightarrow> app \<Rightarrow> app" where
  "editor_key tr editorFirst key a =
     (if \<not> running a then a
      else if editorFirst then App_input key a (editor_input tr key a a)
      else (let a' = App_input key a a
            in if running a' then editor_input tr key a a' else a'))"

text \<open>The Return key, and a key that types one character.\<close>

definition enter :: keypress where
  "enter = \<lparr>kchar = [CHR 0x0D], kname = ''return'', kctrl = False\<rparr>"

definition char_key :: "char \<Rightarrow> keypress" where
  "char_key c = \<lparr>kchar = [c], kname = (if c = CHR '' '' then ''space'' else [c]), kctrl = False\<rparr>"

definition escape_key :: keypress where
  "escape_key = \<lparr>kchar = [CHR 0x1B], kname = ''escape'', kctrl = False\<rparr>"

text \<open>
  An application state with the editor opened from the configure view on a profile that
  has no token, and the Return key of ink.
\<close>

definition bare_profile :: profile where
  "bare_profile = \<lparr>name = ''bare'', provider = ''bare'', env = [], fileKey = Some ''bare''\<rparr>"

definition editing_app :: app where
  "editing_app =
     handleConfigureProfile bare_profile
       \<lparr>viewStack = [MainView, ConfigureView], menuIndex = 1, escExitArmed = False,
        running = True, selectedProfile = None,
        editor = initial_editor bare_profile, disk = Some example_dir\<rparr>"

definition ink_return :: ink_key where
  "ink_return =
     \<lparr>input_k = [CHR 0x0D], escape_k = False, return_k = True, tab_k = False, upArrow = False,
      downArrow = False, backspace_k = False, delete_k = False, ctrl_k = False, meta_k = False\<rparr>"


section \<open>Properties of slugs\<close>

lemma hyphen_not_alnum: "\<not> is_alnum (CHR ''-'')"
  by (simp add: is_alnum_def less_eq_char_def)

lemma lower_char_alnum: "is_alnum c \<Longrightarrow> lower_char c = c"
  by (auto simp: is_alnum_def lower_char_def less_eq_char_def)

lemma lower_char_hyphen: "lower_char (CHR ''-'') = CHR ''-''"
  by (simp add: lower_char_def less_eq_char_def)

lemma space_not_alnum: "is_space c \<Longrightarrow> \<not> is_alnum c"
  by (auto simp: is_space_def is_alnum_def less_eq_char_def)

lemma replace_nonalnum_set:
  "c \<in> set (replace_nonalnum s) \<Longrightarrow> is_alnum c \<or> c = CHR ''-''"
  by (induction s rule: replace_nonalnum.induct) (auto split: if_splits)

lemma replace_nonalnum_hd:
  "s = [] \<or> is_alnum (hd s) \<Longrightarrow> replace_nonalnum s = [] \<or> is_alnum (hd (replace_nonalnum s))"
  by (cases s) auto

lemma dropWhile_hd: "dropWhile P s = [] \<or> \<not> P (hd (dropWhile P s))"
  using hd_dropWhile by blast

lemma replace_nonalnum_no_double: "replace_nonalnum s \<noteq> xs @ ''--'' @ ys"
proof (induction s arbitrary: xs rule: replace_nonalnum.induct)
  case 1
  then show ?case by simp
next
  case (2 c cs)
  show ?case
  proof (cases "is_alnum c")
    case True
    show ?thesis
    proof (cases xs)
      case Nil
      with True show ?thesis using hyphen_not_alnum by auto
    next
      case (Cons x xs')
      with True 2(1) show ?thesis by auto
    qed
  next
    case False
    let ?r = "replace_nonalnum (dropWhile (\<lambda>x. \<not> is_alnum x) cs)"
    have hd_r: "?r = [] \<or> is_alnum (hd ?r)"
      using dropWhile_hd [of "\<lambda>x. \<not> is_alnum x" cs] replace_nonalnum_hd by auto
    show ?thesis
    proof (cases xs)
      case Nil
      show ?thesis
      proof
        assume "replace_nonalnum (c # cs) = xs @ ''--'' @ ys"
        with False Nil have "?r = CHR ''-'' # ys" by simp
        with hd_r show False using hyphen_not_alnum by auto
      qed
    next
      case (Cons x xs')
      with False 2(2) show ?thesis by auto
    qed
  qed
qed

lemma strip_hyphens_set: "set (strip_hyphens s) \<subseteq> set s"
proof -
  have "set (strip_hyphens s) \<subseteq> set (dropWhile (\<lambda>c. c = CHR ''-'') s)"
    unfolding strip_hyphens_def using set_dropWhileD by fastforce
  also have "\<dots> \<subseteq> set s"
    using set_dropWhileD by fastforce
  finally show ?thesis .
qed

lemma dropWhile_no_double:
  assumes "\<And>xs ys. s \<noteq> xs @ ''--'' @ ys"
  shows "dropWhile P s \<noteq> xs @ ''--'' @ ys"
proof
  assume "dropWhile P s = xs @ ''--'' @ ys"
  then have "s = (takeWhile P s @ xs) @ ''--'' @ ys"
    using takeWhile_dropWhile_id [of P s] by (metis append.assoc)
  with assms show False by blast
qed

lemma rev_no_double:
  assumes "\<And>xs ys. s \<noteq> xs @ ''--'' @ ys"
  shows "rev s \<noteq> xs @ ''--'' @ ys"
proof
  assume "rev s = xs @ ''--'' @ ys"
  then have "rev (rev s) = rev (xs @ ''--'' @ ys)" by simp
  then have "s = rev ys @ ''--'' @ rev xs" by simp
  with assms show False by blast
qed

lemma strip_hyphens_no_double:
  assumes "\<And>xs ys. s \<noteq> xs @ ''--'' @ ys"
  shows "strip_hyphens s \<noteq> xs @ ''--'' @ ys"
  unfolding strip_hyphens_def
  by (intro rev_no_double dropWhile_no_double assms)

lemma strip_hyphens_last: "strip_hyphens s \<noteq> [] \<Longrightarrow> last (strip_hyphens s) \<noteq> CHR ''-''"
proof -
  let ?t = "dropWhile (\<lambda>c. c = CHR ''-'') (rev (dropWhile (\<lambda>c. c = CHR ''-'') s))"
  assume "strip_hyphens s \<noteq> []"
  then have ne: "?t \<noteq> []" by (simp add: strip_hyphens_def)
  then have "hd ?t \<noteq> CHR ''-''" using hd_dropWhile by blast
  with ne show ?thesis by (simp add: strip_hyphens_def last_rev)
qed

lemma rev_dropWhile_rev_hd:
  assumes "dropWhile P (rev d) \<noteq> []"
  shows "hd (rev (dropWhile P (rev d))) = hd d"
proof -
  have "rev (takeWhile P (rev d) @ dropWhile P (rev d)) = d"
    by (simp only: takeWhile_dropWhile_id rev_rev_ident)
  then have "rev (dropWhile P (rev d)) @ rev (takeWhile P (rev d)) = d"
    by (simp only: rev_append)
  then have "hd d = hd (rev (dropWhile P (rev d)) @ rev (takeWhile P (rev d)))"
    by simp
  with assms show ?thesis by simp
qed

lemma strip_hyphens_hd: "strip_hyphens s \<noteq> [] \<Longrightarrow> hd (strip_hyphens s) \<noteq> CHR ''-''"
proof -
  let ?d = "dropWhile (\<lambda>c. c = CHR ''-'') s"
  assume ne0: "strip_hyphens s \<noteq> []"
  then have ne: "dropWhile (\<lambda>c. c = CHR ''-'') (rev ?d) \<noteq> []"
    by (simp add: strip_hyphens_def)
  have dne: "?d \<noteq> []"
  proof
    assume e: "?d = []"
    have "dropWhile (\<lambda>c. c = CHR ''-'') (rev ?d) = []" unfolding e by simp
    with ne show False by simp
  qed
  then have hd_d: "hd ?d \<noteq> CHR ''-''" using hd_dropWhile by blast
  have "hd (strip_hyphens s) = hd ?d"
    unfolding strip_hyphens_def using ne by (rule rev_dropWhile_rev_hd)
  with hd_d show ?thesis by simp
qed


lemma toLowerCase_fixed:
  "\<forall>c\<in>set t. is_alnum c \<or> c = CHR ''-'' \<Longrightarrow> toLowerCase t = t"
  unfolding toLowerCase_def
  by (rule map_idI) (auto simp: lower_char_alnum lower_char_hyphen)

lemma replace_nonalnum_fixed:
  "\<forall>c\<in>set t. is_alnum c \<or> c = CHR ''-'' \<Longrightarrow> (\<And>xs ys. t \<noteq> xs @ ''--'' @ ys)
     \<Longrightarrow> replace_nonalnum t = t"
proof (induction t)
  case Nil
  then show ?case by simp
next
  case (Cons c cs)
  have nd: "cs \<noteq> xs @ ''--'' @ ys" for xs ys
  proof
    assume "cs = xs @ ''--'' @ ys"
    then have "c # cs = (c # xs) @ ''--'' @ ys" by simp
    with Cons.prems(2) show False by blast
  qed
  have IH: "replace_nonalnum cs = cs"
    using Cons.IH Cons.prems(1) nd by simp
  show ?case
  proof (cases "is_alnum c")
    case True
    with IH show ?thesis by simp
  next
    case False
    with Cons.prems(1) have c: "c = CHR ''-''" by simp
    have "cs = [] \<or> is_alnum (hd cs)"
    proof (cases cs)
      case Nil
      then show ?thesis by simp
    next
      case (Cons d ds)
      have "d \<noteq> CHR ''-''"
      proof
        assume "d = CHR ''-''"
        with c Cons have "c # cs = [] @ ''--'' @ ds" by simp
        with Cons.prems(2) show False by blast
      qed
      with Cons Cons.prems(1) show ?thesis by auto
    qed
    then have "dropWhile (\<lambda>x. \<not> is_alnum x) cs = cs"
      by (cases cs) auto
    with False c IH show ?thesis by simp
  qed
qed

lemma strip_hyphens_fixed:
  assumes "t \<noteq> []" "hd t \<noteq> CHR ''-''" "last t \<noteq> CHR ''-''"
  shows "strip_hyphens t = t"
proof -
  have 1: "dropWhile (\<lambda>c. c = CHR ''-'') t = t"
    using assms(1,2) by (cases t) auto
  have "rev t \<noteq> []" "hd (rev t) \<noteq> CHR ''-''"
    using assms(1,3) by (simp_all add: hd_rev)
  then have 2: "dropWhile (\<lambda>c. c = CHR ''-'') (rev t) = rev t"
    by (cases "rev t") auto
  show ?thesis by (simp add: strip_hyphens_def 1 2)
qed

lemma slug_shape_fixed: "slug_shape t \<Longrightarrow> slugify t = t"
  unfolding slug_shape_def slugify_def
  by (simp add: toLowerCase_fixed replace_nonalnum_fixed strip_hyphens_fixed)

lemma profile_shape: "slug_shape ''profile''"
proof -
  have "''profile'' \<noteq> xs @ ''--'' @ ys" for xs ys
    using replace_nonalnum_no_double [of "''profile''" xs ys]
    by (simp add: is_alnum_def less_eq_char_def)
  then show ?thesis
    by (simp add: slug_shape_def is_alnum_def less_eq_char_def)
qed

lemma slugify_shape_aux:
  "slug_shape (let slug = strip_hyphens (replace_nonalnum s) in if slug = [] then ''profile'' else slug)"
proof (cases "strip_hyphens (replace_nonalnum s) = []")
  case True
  then show ?thesis by (simp add: profile_shape)
next
  case False
  let ?t = "strip_hyphens (replace_nonalnum s)"
  have "\<forall>c\<in>set ?t. is_alnum c \<or> c = CHR ''-''"
    using strip_hyphens_set [of "replace_nonalnum s"] replace_nonalnum_set by blast
  moreover have "?t \<noteq> xs @ ''--'' @ ys" for xs ys
    by (rule strip_hyphens_no_double) (rule replace_nonalnum_no_double)
  ultimately show ?thesis
    using False strip_hyphens_hd [of "replace_nonalnum s"] strip_hyphens_last [of "replace_nonalnum s"]
    by (simp add: slug_shape_def)
qed

lemma slugify_shape: "slug_shape (slugify x)"
  unfolding slugify_def by (rule slugify_shape_aux)

lemma toProfileFileKey_shape: "slug_shape (toProfileFileKey x)"
  unfolding toProfileFileKey_def by (rule slugify_shape_aux)

lemma replace_nonalnum_none:
  "\<forall>c\<in>set s. \<not> is_alnum c \<Longrightarrow> replace_nonalnum s = (if s = [] then [] else ''-'')"
proof (cases s)
  case Nil
  then show ?thesis by simp
next
  case (Cons c cs)
  assume a: "\<forall>c\<in>set s. \<not> is_alnum c"
  with Cons have d: "dropWhile (\<lambda>x. \<not> is_alnum x) cs = []" by simp
  show ?thesis using a by (simp add: Cons d)
qed

lemma slugify_fallback:
  assumes "\<forall>c\<in>set x. \<not> is_alnum (lower_char c)"
  shows "slugify x = ''profile''"
proof -
  have "\<forall>c\<in>set (toLowerCase x). \<not> is_alnum c"
    using assms by (simp add: toLowerCase_def)
  then have "replace_nonalnum (toLowerCase x) = (if toLowerCase x = [] then [] else ''-'')"
    by (rule replace_nonalnum_none)
  then have "strip_hyphens (replace_nonalnum (toLowerCase x)) = []"
    by (simp add: strip_hyphens_def)
  then show ?thesis by (simp add: slugify_def)
qed

lemma trim_fixed:
  assumes "t \<noteq> []" "\<not> is_space (hd t)" "\<not> is_space (last t)"
  shows "trim t = t"
proof -
  have 1: "dropWhile is_space t = t"
    using assms(1,2) by (cases t) auto
  have "rev t \<noteq> []" "\<not> is_space (hd (rev t))"
    using assms(1,3) by (simp_all add: hd_rev)
  then have 2: "dropWhile is_space (rev t) = rev t"
    by (cases "rev t") auto
  show ?thesis by (simp add: trim_def 1 2)
qed

lemma slug_shape_trim: "slug_shape t \<Longrightarrow> trim t = t"
proof (rule trim_fixed)
  assume s: "slug_shape t"
  then show ne: "t \<noteq> []" by (simp add: slug_shape_def)
  from s ne have "is_alnum (hd t)" "is_alnum (last t)"
    unfolding slug_shape_def using hd_in_set last_in_set by blast+
  then show "\<not> is_space (hd t)" "\<not> is_space (last t)"
    using space_not_alnum by blast+
qed

lemma toProfileFileKey_slugify: "toProfileFileKey x = slugify (trim x)"
  by (simp add: toProfileFileKey_def slugify_def)

lemma set_trim: "set (trim x) \<subseteq> set x"
proof -
  have "set (trim x) \<subseteq> set (dropWhile is_space x)"
    unfolding trim_def using set_dropWhileD by fastforce
  also have "\<dots> \<subseteq> set x"
    using set_dropWhileD by fastforce
  finally show ?thesis .
qed

text \<open>
  Claim C2. \<open>slugify\<close> is idempotent; its result is never empty and consists of
  characters of \<open>[a-z0-9]\<close> and hyphens only, with no hyphen at the start or at the end and
  no two hyphens in a row (\<open>slug_shape\<close>); an input without any ASCII letter or digit, such
  as \<open>???\<close>, gives the fallback \<open>profile\<close>. The same holds of the command line's
  \<open>toProfileFileKey\<close>, which trims the name first.
\<close>

theorem slugify_idempotent_shape_fallback:
  "slugify (slugify x) = slugify x \<and> slug_shape (slugify x) \<and>
   ((\<forall>c\<in>set x. \<not> is_alnum (lower_char c)) \<longrightarrow> slugify x = ''profile'') \<and>
   toProfileFileKey (toProfileFileKey x) = toProfileFileKey x \<and>
   slug_shape (toProfileFileKey x) \<and>
   ((\<forall>c\<in>set x. \<not> is_alnum (lower_char c)) \<longrightarrow> toProfileFileKey x = ''profile'')"
proof -
  have "slugify (slugify x) = slugify x"
    by (rule slug_shape_fixed) (rule slugify_shape)
  moreover have "toProfileFileKey (toProfileFileKey x) = toProfileFileKey x"
    using toProfileFileKey_shape [of x]
    by (simp add: toProfileFileKey_slugify [of "toProfileFileKey x"] slug_shape_trim
        slug_shape_fixed)
  moreover have "toProfileFileKey x = ''profile''" if "\<forall>c\<in>set x. \<not> is_alnum (lower_char c)"
    unfolding toProfileFileKey_slugify using that set_trim [of x]
    by (intro slugify_fallback) blast
  ultimately show ?thesis
    using slugify_shape toProfileFileKey_shape slugify_fallback by blast
qed

theorem slugify_idempotent_shape_fallback_witness:
  "slugify ''???'' = ''profile'' \<and> toProfileFileKey '' ?? '' = ''profile'' \<and>
   slugify ''My GLM'' = ''my-glm'' \<and> slugify (slugify ''My GLM'') = ''my-glm'' \<and>
   slug_shape ''my-glm''"
proof -
  have a: "\<forall>c\<in>set ''???''. \<not> is_alnum (lower_char c)" by code_simp
  have b: "\<forall>c\<in>set '' ?? ''. \<not> is_alnum (lower_char c)" by code_simp
  have c: "slugify ''My GLM'' = ''my-glm''" by code_simp
  from a have "slugify ''???'' = ''profile''"
    using slugify_idempotent_shape_fallback [of "''???''"] by blast
  moreover from b have "toProfileFileKey '' ?? '' = ''profile''"
    using slugify_idempotent_shape_fallback [of "'' ?? ''"] by blast
  moreover have "slugify (slugify ''My GLM'') = ''my-glm'' \<and> slug_shape ''my-glm''"
    using slugify_idempotent_shape_fallback [of "''My GLM''"] unfolding c by blast
  ultimately show ?thesis using c by blast
qed


section \<open>Loading the profiles directory\<close>

lemma endsWith_split: "endsWith s suf \<Longrightarrow> take (length s - length suf) s @ suf = s"
  unfolding endsWith_def using append_take_drop_id [of "length s - length suf" s] by auto

lemma basename_json: "endsWith fn ''.json'' \<Longrightarrow> basename fn ''.json'' @ ''.json'' = fn"
  using endsWith_split [of fn "''.json''"] by (simp add: basename_def)

lemma endsWith_append: "endsWith (k @ suf) suf"
  by (simp add: endsWith_def)

lemma basename_append: "basename (k @ ''.json'') ''.json'' = k"
  by (simp add: basename_def endsWith_append)

lemma loadProfiles_loop_closed:
  "loadProfiles_loop d files acc =
     acc @ List.map_filter (read_profile d) (filter is_profile_file files)"
  by (induction files arbitrary: acc)
     (auto simp: is_profile_file_def map_filter_simps split: option.splits)

lemma listProfiles_loop_closed:
  "listProfiles_loop d files acc =
     acc @ map (\<lambda>p. p\<lparr>fileKey := None\<rparr>) (List.map_filter (read_profile d) (filter is_profile_file files))"
  by (induction files arbitrary: acc)
     (auto simp: is_profile_file_def map_filter_simps split: option.splits)

lemma loadProfiles_closed:
  "loadProfiles (Some d) =
     List.map_filter (read_profile d) (filter is_profile_file (sort (readdirSync d)))"
  by (simp add: loadProfiles_def loadProfiles_loop_closed)

lemma listProfiles_loadProfiles:
  "listProfiles fs = map (\<lambda>p. p\<lparr>fileKey := None\<rparr>) (loadProfiles fs)"
  by (cases fs) (simp_all add: listProfiles_def loadProfiles_def loadProfiles_loop_closed
      listProfiles_loop_closed)

lemma read_profile_Some_iff:
  "read_profile d fn = Some p \<longleftrightarrow>
     (\<exists>n pv e. map_of d fn = Some (Parsed n pv e) \<and>
        p = \<lparr>name = or_else n (basename fn ''.json''),
             provider = or_else pv (basename fn ''.json''),
             env = (case e of None \<Rightarrow> [] | Some m \<Rightarrow> m),
             fileKey = Some (basename fn ''.json'')\<rparr>)"
  by (auto simp: read_profile_def split: option.splits file_body.splits)

lemma read_profile_None_iff:
  "read_profile d fn = None \<longleftrightarrow> map_of d fn = None \<or> map_of d fn = Some Unreadable"
  by (auto simp: read_profile_def split: option.splits file_body.splits)

lemma read_profile_fileKey: "read_profile d fn = Some p \<Longrightarrow> fileKey p = Some (basename fn ''.json'')"
  by (auto simp: read_profile_Some_iff)

lemma in_map_filter_iff:
  "y \<in> set (List.map_filter f xs) \<longleftrightarrow> (\<exists>x\<in>set xs. f x = Some y)"
  by (induction xs) (auto simp: map_filter_simps split: option.splits)

lemma in_loadProfiles_iff:
  "p \<in> set (loadProfiles (Some d)) \<longleftrightarrow>
     (\<exists>fn\<in>set (readdirSync d). is_profile_file fn \<and> read_profile d fn = Some p)"
  by (auto simp: loadProfiles_closed in_map_filter_iff)

lemma map_filter_files:
  "map (\<lambda>p. the (fileKey p) @ ''.json'') (List.map_filter (read_profile d) (filter is_profile_file fs))
     = filter (\<lambda>fn. is_profile_file fn \<and> read_profile d fn \<noteq> None) fs"
proof (induction fs)
  case Nil
  then show ?case by (simp add: map_filter_simps)
next
  case (Cons fn fs)
  show ?case
  proof (cases "is_profile_file fn \<and> read_profile d fn \<noteq> None")
    case True
    then obtain p where p: "read_profile d fn = Some p" by auto
    from True have "basename fn ''.json'' @ ''.json'' = fn"
      by (simp add: is_profile_file_def basename_json)
    with p True Cons show ?thesis
      by (simp add: map_filter_simps read_profile_fileKey)
  next
    case False
    with Cons show ?thesis by (auto simp: map_filter_simps)
  qed
qed

lemma loadProfiles_files:
  "map (\<lambda>p. the (fileKey p) @ ''.json'') (loadProfiles (Some d)) =
     filter (\<lambda>fn. is_profile_file fn \<and> read_profile d fn \<noteq> None) (sort (readdirSync d))"
  by (simp add: loadProfiles_closed map_filter_files)

lemma map_of_readdir: "fn \<in> set (readdirSync d) \<Longrightarrow> map_of d fn \<noteq> None"
  by (simp add: readdirSync_def map_of_eq_None_iff)

lemma readable_iff:
  "fn \<in> set (readdirSync d) \<Longrightarrow> read_profile d fn \<noteq> None \<longleftrightarrow> map_of d fn \<noteq> Some Unreadable"
  using map_of_readdir [of fn d] by (simp add: read_profile_None_iff)

text \<open>
  Claim C5. A missing profiles directory gives the empty list. Otherwise the files of the
  returned profiles, in the order returned, are exactly the directory entries, sorted by
  name, that end in \<open>.json\<close>, do not end in \<open>.example.json\<close> and are readable: example
  files and unreadable files are left out, every other profile file is kept (an unreadable
  file stops nothing), and each returned profile is what its file reads as.
  \<open>LocalProfileStore.listProfiles\<close> returns the same list without the file keys.
\<close>

theorem loadProfiles_skips_examples_and_unreadable:
  "loadProfiles None = [] \<and> listProfiles None = [] \<and>
   listProfiles (Some d) = map (\<lambda>p. p\<lparr>fileKey := None\<rparr>) (loadProfiles (Some d)) \<and>
   map (\<lambda>p. the (fileKey p) @ ''.json'') (loadProfiles (Some d)) =
     filter (\<lambda>fn. endsWith fn ''.json'' \<and> \<not> endsWith fn ''.example.json'' \<and>
                   map_of d fn \<noteq> Some Unreadable) (sort (readdirSync d)) \<and>
   sorted (map (\<lambda>p. the (fileKey p) @ ''.json'') (loadProfiles (Some d))) \<and>
   (\<forall>p\<in>set (loadProfiles (Some d)). read_profile d (the (fileKey p) @ ''.json'') = Some p)"
proof -
  let ?files = "map (\<lambda>p. the (fileKey p) @ ''.json'') (loadProfiles (Some d))"
  have eq: "?files = filter (\<lambda>fn. endsWith fn ''.json'' \<and> \<not> endsWith fn ''.example.json'' \<and>
                   map_of d fn \<noteq> Some Unreadable) (sort (readdirSync d))"
    unfolding loadProfiles_files
  proof (rule filter_cong)
    fix fn assume "fn \<in> set (sort (readdirSync d))"
    then have "fn \<in> set (readdirSync d)" by simp
    then show "(is_profile_file fn \<and> read_profile d fn \<noteq> None) =
      (endsWith fn ''.json'' \<and> \<not> endsWith fn ''.example.json'' \<and> map_of d fn \<noteq> Some Unreadable)"
      using readable_iff [of fn d] by (simp add: is_profile_file_def)
  qed simp
  have srt: "sorted ?files"
    unfolding eq by (rule sorted_wrt_filter) simp
  have n: "loadProfiles None = []" "listProfiles None = []"
    by (simp_all add: loadProfiles_def listProfiles_def)
  have l: "listProfiles (Some d) = map (\<lambda>p. p\<lparr>fileKey := None\<rparr>) (loadProfiles (Some d))"
    by (rule listProfiles_loadProfiles)
  have "read_profile d (the (fileKey p) @ ''.json'') = Some p"
    if "p \<in> set (loadProfiles (Some d))" for p
  proof -
    from that obtain fn where fn: "is_profile_file fn" "read_profile d fn = Some p"
      by (auto simp: in_loadProfiles_iff)
    then have "the (fileKey p) @ ''.json'' = fn"
      by (simp add: read_profile_fileKey is_profile_file_def basename_json)
    with fn show ?thesis by simp
  qed
  with n l eq srt show ?thesis by blast
qed

theorem loadProfiles_skips_examples_and_unreadable_witness:
  "map (\<lambda>p. the (fileKey p) @ ''.json'') (loadProfiles (Some example_dir)) =
     [''bare.json'', ''zai.json''] \<and>
   map name (listProfiles (Some example_dir)) = [''bare'', ''My GLM'']"
proof -
  have "filter (\<lambda>fn. endsWith fn ''.json'' \<and> \<not> endsWith fn ''.example.json'' \<and>
                   map_of example_dir fn \<noteq> Some Unreadable) (sort (readdirSync example_dir))
        = [''bare.json'', ''zai.json'']"
    by (simp add: example_dir_def readdirSync_def endsWith_def)
  moreover have "map name (map (\<lambda>p. p\<lparr>fileKey := None\<rparr>) (loadProfiles (Some example_dir)))
        = [''bare'', ''My GLM'']"
    by (simp add: example_dir_def loadProfiles_def readdirSync_def endsWith_def read_profile_def
        or_else_def basename_def)
  ultimately show ?thesis
    using loadProfiles_skips_examples_and_unreadable [of example_dir] by simp
qed

lemma parsed_file_totalized:
  assumes "endsWith fn ''.json''" "\<not> endsWith fn ''.example.json''"
    and "map_of d fn = Some (Parsed n pv e)"
  shows "\<lparr>name = (if n = None \<or> n = Some [] then basename fn ''.json'' else the n),
          provider = (if pv = None \<or> pv = Some [] then basename fn ''.json'' else the pv),
          env = (if e = None then [] else the e),
          fileKey = Some (basename fn ''.json'')\<rparr> \<in> set (loadProfiles (Some d)) \<and>
         \<lparr>name = (if n = None \<or> n = Some [] then basename fn ''.json'' else the n),
          provider = (if pv = None \<or> pv = Some [] then basename fn ''.json'' else the pv),
          env = (if e = None then [] else the e),
          fileKey = None\<rparr> \<in> set (listProfiles (Some d))"
proof -
  let ?p = "\<lparr>name = (if n = None \<or> n = Some [] then basename fn ''.json'' else the n),
          provider = (if pv = None \<or> pv = Some [] then basename fn ''.json'' else the pv),
          env = (if e = None then [] else the e),
          fileKey = Some (basename fn ''.json'')\<rparr>"
  from assms(3) have "fn \<in> set (readdirSync d)"
    by (auto simp: readdirSync_def dest: map_of_SomeD intro: rev_image_eqI)
  moreover have "read_profile d fn = Some ?p"
    using assms(3) by (auto simp: read_profile_def or_else_def split: option.splits)
  ultimately have in_load: "?p \<in> set (loadProfiles (Some d))"
    using assms(1,2) by (auto simp: in_loadProfiles_iff is_profile_file_def)
  then have "?p\<lparr>fileKey := None\<rparr> \<in> set (listProfiles (Some d))"
    unfolding listProfiles_loadProfiles by (metis (no_types, lifting) image_eqI list.set_map)
  with in_load show ?thesis by simp
qed

lemma map_of_on_disk: "map_of (on_disk texts) fn = map_option try_body (map_of texts fn)"
  by (induction texts) (auto simp: on_disk_def)

lemma basename_json_inj:
  assumes "endsWith fn ''.json''" "endsWith fn' ''.json''"
    and "basename fn ''.json'' = basename fn' ''.json''"
  shows "fn = fn'"
proof -
  have "fn = basename fn ''.json'' @ ''.json''"
    using basename_json [OF assms(1)] by simp
  also have "\<dots> = basename fn' ''.json'' @ ''.json''"
    using assms(3) by simp
  also have "\<dots> = fn'"
    using basename_json [OF assms(2)] by simp
  finally show ?thesis .
qed

lemma skipped_file_not_loaded:
  assumes "endsWith fn ''.json''" and "read_profile d fn = None"
  shows "\<forall>p\<in>set (loadProfiles (Some d)). fileKey p \<noteq> Some (basename fn ''.json'')"
proof
  fix p assume "p \<in> set (loadProfiles (Some d))"
  then obtain fn' where f: "is_profile_file fn'" "read_profile d fn' = Some p"
    unfolding in_loadProfiles_iff by blast
  from f(1) have e: "endsWith fn' ''.json''" by (simp add: is_profile_file_def)
  show "fileKey p \<noteq> Some (basename fn ''.json'')"
  proof
    assume "fileKey p = Some (basename fn ''.json'')"
    with read_profile_fileKey [OF f(2)] have "basename fn ''.json'' = basename fn' ''.json''"
      by simp
    from basename_json_inj [OF assms(1) e this] f(2) assms(2) show False by simp
  qed
qed

text \<open>
  Claim C10 (as amended). A profile file whose text parses to a JSON value other than \<open>null\<close>
  is returned with every field defined: a missing or empty \<open>name\<close> or \<open>provider\<close>
  becomes the file's base name without \<open>.json\<close>, a missing \<open>env\<close> becomes the empty
  mapping, by \<open>loadProfiles\<close> and by \<open>LocalProfileStore.listProfiles\<close> alike. A file that
  holds \<open>null\<close> parses as JSON too, but the property access on \<open>null\<close> throws inside the
  \<open>try\<close> block: such a file is skipped like one that does not parse, and no profile is
  returned for it.
\<close>

theorem loadProfiles_totalizes_missing_fields:
  assumes "endsWith fn ''.json''" "\<not> endsWith fn ''.example.json''"
    and "map_of texts fn = Some t"
  shows "(\<forall>n pv e. t = JSON_value n pv e \<longrightarrow>
            \<lparr>name = (if n = None \<or> n = Some [] then basename fn ''.json'' else the n),
             provider = (if pv = None \<or> pv = Some [] then basename fn ''.json'' else the pv),
             env = (if e = None then [] else the e),
             fileKey = Some (basename fn ''.json'')\<rparr> \<in> set (loadProfiles (Some (on_disk texts))) \<and>
            \<lparr>name = (if n = None \<or> n = Some [] then basename fn ''.json'' else the n),
             provider = (if pv = None \<or> pv = Some [] then basename fn ''.json'' else the pv),
             env = (if e = None then [] else the e),
             fileKey = None\<rparr> \<in> set (listProfiles (Some (on_disk texts)))) \<and>
         (t = JSON_null \<or> t = NotJSON \<longrightarrow>
            (\<forall>p\<in>set (loadProfiles (Some (on_disk texts))).
               fileKey p \<noteq> Some (basename fn ''.json''))) \<and>
         listProfiles (Some (on_disk texts)) =
           map (\<lambda>p. p\<lparr>fileKey := None\<rparr>) (loadProfiles (Some (on_disk texts)))"
proof (intro conjI allI impI)
  fix n pv e assume "t = JSON_value n pv e"
  with assms(3) have m: "map_of (on_disk texts) fn = Some (Parsed n pv e)"
    by (simp add: map_of_on_disk)
  from parsed_file_totalized [OF assms(1,2) m]
  show "\<lparr>name = (if n = None \<or> n = Some [] then basename fn ''.json'' else the n),
          provider = (if pv = None \<or> pv = Some [] then basename fn ''.json'' else the pv),
          env = (if e = None then [] else the e),
          fileKey = Some (basename fn ''.json'')\<rparr> \<in> set (loadProfiles (Some (on_disk texts)))"
    and "\<lparr>name = (if n = None \<or> n = Some [] then basename fn ''.json'' else the n),
          provider = (if pv = None \<or> pv = Some [] then basename fn ''.json'' else the pv),
          env = (if e = None then [] else the e),
          fileKey = None\<rparr> \<in> set (listProfiles (Some (on_disk texts)))"
    by blast+
next
  assume "t = JSON_null \<or> t = NotJSON"
  with assms(3) have "map_of (on_disk texts) fn = Some Unreadable"
    by (auto simp: map_of_on_disk)
  then have "read_profile (on_disk texts) fn = None"
    by (simp add: read_profile_def)
  from skipped_file_not_loaded [OF assms(1) this]
  show "\<forall>p\<in>set (loadProfiles (Some (on_disk texts))).
          fileKey p \<noteq> Some (basename fn ''.json'')" .
next
  show "listProfiles (Some (on_disk texts)) =
          map (\<lambda>p. p\<lparr>fileKey := None\<rparr>) (loadProfiles (Some (on_disk texts)))"
    by (rule listProfiles_loadProfiles)
qed

theorem loadProfiles_totalizes_missing_fields_witness:
  "\<lparr>name = ''bare'', provider = ''bare'', env = [], fileKey = Some ''bare''\<rparr>
     \<in> set (loadProfiles (Some (on_disk [(''bare.json'', JSON_value None None None),
                                          (''n.json'', JSON_null)]))) \<and>
   \<lparr>name = ''bare'', provider = ''bare'', env = [], fileKey = None\<rparr>
     \<in> set (listProfiles (Some (on_disk [(''bare.json'', JSON_value None None None),
                                          (''n.json'', JSON_null)]))) \<and>
   Some ''n'' \<notin> fileKey ` set (loadProfiles (Some (on_disk [(''bare.json'', JSON_value None None None),
                                                            (''n.json'', JSON_null)])))"
proof -
  let ?t = "[(''bare.json'', JSON_value None None None), (''n.json'', JSON_null)]"
  have 1: "endsWith ''bare.json'' ''.json''" "endsWith ''n.json'' ''.json''"
    by (simp_all add: endsWith_def)
  have 2: "\<not> endsWith ''bare.json'' ''.example.json''" "\<not> endsWith ''n.json'' ''.example.json''"
    by (simp_all add: endsWith_def)
  have 3: "map_of ?t ''bare.json'' = Some (JSON_value None None None)"
    "map_of ?t ''n.json'' = Some JSON_null"
    by simp_all
  have 4: "basename ''bare.json'' ''.json'' = ''bare''" "basename ''n.json'' ''.json'' = ''n''"
    by (simp_all add: basename_def endsWith_def)
  from loadProfiles_totalizes_missing_fields [OF 1(1) 2(1) 3(1), THEN conjunct1, rule_format, OF refl]
  have a: "\<lparr>name = ''bare'', provider = ''bare'', env = [], fileKey = Some ''bare''\<rparr>
             \<in> set (loadProfiles (Some (on_disk ?t))) \<and>
           \<lparr>name = ''bare'', provider = ''bare'', env = [], fileKey = None\<rparr>
             \<in> set (listProfiles (Some (on_disk ?t)))"
    by (simp add: 4)
  from loadProfiles_totalizes_missing_fields [OF 1(2) 2(2) 3(2), THEN conjunct2, THEN conjunct1]
  have b: "\<forall>p\<in>set (loadProfiles (Some (on_disk ?t))). fileKey p \<noteq> Some ''n''"
    by (simp add: 4)
  from b have "Some ''n'' \<notin> fileKey ` set (loadProfiles (Some (on_disk ?t)))"
    by (auto simp del: set_simps)
  with a show ?thesis by blast
qed

theorem loadProfiles_totalizes_missing_fields_counterexample:
  "parses_as_JSON JSON_null \<and>
   endsWith ''n.json'' ''.json'' \<and> \<not> endsWith ''n.json'' ''.example.json'' \<and>
   loadProfiles (Some (on_disk [(''n.json'', JSON_null)])) = [] \<and>
   listProfiles (Some (on_disk [(''n.json'', JSON_null)])) = []"
  by (simp add: endsWith_def on_disk_def loadProfiles_def listProfiles_def readdirSync_def
      read_profile_def)

section \<open>Removing the profiles of a provider\<close>

lemma distinct_map_of: "distinct (map fst d) \<Longrightarrow> (fn, b) \<in> set d \<Longrightarrow> map_of d fn = Some b"
  by simp

lemma removeProviderProfiles_loop_closed:
  "distinct (map fst d) \<Longrightarrow>
   removeProviderProfiles_loop pid files d =
     filter (\<lambda>(fn, b). \<not> (fn \<in> set files \<and> is_profile_file fn \<and> stored_provider b = Some pid)) d"
proof (induction files arbitrary: d)
  case Nil
  then show ?case by simp
next
  case (Cons f fs)
  let ?hit = "\<lambda>S. \<lambda>(fn, b). \<not> (fn \<in> S \<and> is_profile_file fn \<and> stored_provider b = Some pid)"
  show ?case
  proof (cases "is_profile_file f \<and> (\<exists>b. map_of d f = Some b \<and> stored_provider b = Some pid)")
    case True
    then obtain b where b: "map_of d f = Some b" "stored_provider b = Some pid" by blast
    then obtain n e where be: "b = Parsed n (Some pid) e"
      by (cases b) auto
    have dd: "distinct (map fst (AList.delete f d))"
      using Cons.prems by (rule AList.distinct_delete)
    have "removeProviderProfiles_loop pid (f # fs) d =
            removeProviderProfiles_loop pid fs (AList.delete f d)"
      using True b be by (simp add: is_profile_file_def)
    also have "\<dots> = filter (?hit (set fs)) (AList.delete f d)"
      using dd by (rule Cons.IH)
    also have "\<dots> = filter (\<lambda>x. ?hit (set fs) x \<and> fst x \<noteq> f) d"
      by (simp add: AList.delete_eq case_prod_unfold conj_commute eq_commute [of f])
    also have "\<dots> = filter (?hit (set (f # fs))) d"
    proof (rule filter_cong)
      fix x assume "x \<in> set d"
      then have "(fst x, snd x) \<in> set d" by simp
      from distinct_map_of [OF Cons.prems this] have "fst x = f \<Longrightarrow> snd x = b"
        using b by simp
      with True b show "(?hit (set fs) x \<and> fst x \<noteq> f) = ?hit (set (f # fs)) x"
        by (auto simp: case_prod_unfold)
    qed simp
    finally show ?thesis .
  next
    case False
    then have "removeProviderProfiles_loop pid (f # fs) d = removeProviderProfiles_loop pid fs d"
      by (auto simp: is_profile_file_def split: option.splits file_body.splits)
    also have "\<dots> = filter (?hit (set fs)) d"
      using Cons.prems by (rule Cons.IH)
    also have "\<dots> = filter (?hit (set (f # fs))) d"
    proof (rule filter_cong)
      fix x assume "x \<in> set d"
      then have "(fst x, snd x) \<in> set d" by simp
      from distinct_map_of [OF Cons.prems this] have "fst x = f \<Longrightarrow> map_of d f = Some (snd x)"
        by simp
      with False show "?hit (set fs) x = ?hit (set (f # fs)) x"
        by (auto simp: case_prod_unfold)
    qed simp
    finally show ?thesis .
  qed
qed

text \<open>
  Claim C6. In a directory (with distinct entry names) \<open>removeProviderProfiles\<close> removes
  exactly the profile files (names ending in \<open>.json\<close> but not in \<open>.example.json\<close>) whose
  stored \<open>provider\<close> is the given id; every other entry stays, unchanged and in place.
  When no profile file stores that id, or when there is no directory, nothing changes.
\<close>

theorem removeProviderProfiles_deletes_exactly_matching:
  assumes "distinct (map fst d)"
  shows "removeProviderProfiles pid (Some d) =
           Some (filter (\<lambda>(fn, b). \<not> (endsWith fn ''.json'' \<and> \<not> endsWith fn ''.example.json'' \<and>
                                       stored_provider b = Some pid)) d) \<and>
         ((\<forall>(fn, b)\<in>set d. endsWith fn ''.json'' \<and> \<not> endsWith fn ''.example.json''
              \<longrightarrow> stored_provider b \<noteq> Some pid)
            \<longrightarrow> removeProviderProfiles pid (Some d) = Some d) \<and>
         removeProviderProfiles pid None = None"
proof -
  have 1: "removeProviderProfiles pid (Some d) =
           Some (filter (\<lambda>(fn, b). \<not> (endsWith fn ''.json'' \<and> \<not> endsWith fn ''.example.json'' \<and>
                                       stored_provider b = Some pid)) d)"
    unfolding removeProviderProfiles_def option.case removeProviderProfiles_loop_closed [OF assms]
    by (auto intro!: filter_cong simp: readdirSync_def is_profile_file_def rev_image_eqI)
  have 2: "removeProviderProfiles pid (Some d) = Some d"
    if "\<forall>(fn, b)\<in>set d. endsWith fn ''.json'' \<and> \<not> endsWith fn ''.example.json''
              \<longrightarrow> stored_provider b \<noteq> Some pid"
    unfolding 1 using that by (auto simp: filter_id_conv)
  have 3: "removeProviderProfiles pid None = None"
    by (simp add: removeProviderProfiles_def)
  from 1 2 3 show ?thesis by blast
qed

theorem removeProviderProfiles_deletes_exactly_matching_witness:
  "removeProviderProfiles ''glm'' (Some example_dir) =
     Some [(''broken.json'', Unreadable), (''bare.json'', Parsed None None None),
           (''glm.example.json'', Parsed (Some ''Example'') (Some ''glm'') None),
           (''notes.txt'', Unreadable)] \<and>
   removeProviderProfiles ''minimax'' (Some example_dir) = Some example_dir"
proof -
  have d: "distinct (map fst example_dir)" by (simp add: example_dir_def)
  have n: "\<forall>(fn, b)\<in>set example_dir. endsWith fn ''.json'' \<and> \<not> endsWith fn ''.example.json''
              \<longrightarrow> stored_provider b \<noteq> Some ''minimax''"
    by (simp add: example_dir_def)
  have "removeProviderProfiles ''minimax'' (Some example_dir) = Some example_dir"
    using removeProviderProfiles_deletes_exactly_matching [OF d, of "''minimax''"] n by blast
  moreover have "removeProviderProfiles ''glm'' (Some example_dir) =
     Some [(''broken.json'', Unreadable), (''bare.json'', Parsed None None None),
           (''glm.example.json'', Parsed (Some ''Example'') (Some ''glm'') None),
           (''notes.txt'', Unreadable)]"
    using removeProviderProfiles_deletes_exactly_matching [OF d, of "''glm''"]
    by (simp add: example_dir_def endsWith_def)
  ultimately show ?thesis by blast
qed

section \<open>Saving a profile\<close>

lemma endsWith_set: "endsWith s suf \<Longrightarrow> set suf \<subseteq> set s"
  using endsWith_split [of s suf] by (metis Un_upper2 set_append)

lemma endsWith_append_iff: "endsWith (k @ s) (t @ s) \<longleftrightarrow> endsWith k t"
  by (auto simp: endsWith_def)

lemma slug_shape_no_example: "slug_shape k \<Longrightarrow> \<not> endsWith k ''.example''"
proof
  assume s: "slug_shape k" and e: "endsWith k ''.example''"
  from endsWith_set [OF e] have "CHR ''.'' \<in> set k" by simp
  with s have "is_alnum (CHR ''.'') \<or> CHR ''.'' = CHR ''-''"
    unfolding slug_shape_def by blast
  then show False by (simp add: is_alnum_def less_eq_char_def)
qed

lemma update_writes_file: "writes_file d fn b (AList.update fn b d)"
  by (auto simp: writes_file_def update_conv' readdirSync_def update_keys distinct_update)

lemma saved_file_loaded:
  assumes w: "map_of d' (key @ ''.json'') = Some (toWrite p)"
    and ne: "name p \<noteq> []" "provider p \<noteq> []"
    and ex: "\<not> endsWith key ''.example''"
  shows "\<lparr>name = name p, provider = provider p, env = env p, fileKey = Some key\<rparr>
           \<in> set (loadProfiles (Some d'))"
proof -
  let ?fn = "key @ ''.json''"
  have "?fn \<in> set (readdirSync d')"
    using w by (auto simp: readdirSync_def dest: map_of_SomeD intro: rev_image_eqI)
  moreover have "is_profile_file ?fn"
    using ex endsWith_append_iff [of key "''.json''" "''.example''"]
    by (simp add: is_profile_file_def endsWith_append)
  moreover have "read_profile d' ?fn =
      Some \<lparr>name = name p, provider = provider p, env = env p, fileKey = Some key\<rparr>"
    using w ne by (simp add: read_profile_def toWrite_def or_else_def basename_append)
  ultimately show ?thesis
    unfolding in_loadProfiles_iff by blast
qed

text \<open>
  Claim C3 (as amended). A profile whose \<open>name\<close> and \<open>provider\<close> are not empty, and
  whose file key, when it has one, is a plain file name not ending in \<open>.example\<close>, is found
  again by \<open>loadProfiles\<close> after \<open>saveProfile\<close>, with the same name, provider and
  environment and with the key of its file. The loader takes an empty \<open>name\<close> or \<open>provider\<close> for a missing
  one and skips example files, so the claim does not hold of every record: a profile saved
  with the empty name comes back named \<open>profile\<close>.
\<close>

theorem save_then_load_roundtrip:
  assumes "name p \<noteq> []" "provider p \<noteq> []"
    and "\<forall>k. fileKey p = Some k \<longrightarrow> \<not> endsWith k ''.example'' \<and> CHR ''/'' \<notin> set k"
  shows "\<exists>q\<in>set (loadProfiles (saveProfile p fs)).
           name q = name p \<and> provider q = provider p \<and> env q = env p \<and>
           fileKey q = Some (or_else (fileKey p) (slugify (name p)))"
proof -
  let ?key = "or_else (fileKey p) (slugify (name p))"
  let ?d = "case fs of None \<Rightarrow> [] | Some d \<Rightarrow> d"
  let ?d' = "AList.update (?key @ ''.json'') (toWrite p) ?d"
  have s: "saveProfile p fs = Some ?d'"
    by (simp add: saveProfile_def)
  have "\<not> endsWith ?key ''.example''"
    using assms(3) slug_shape_no_example [OF slugify_shape, of "name p"]
    by (auto simp: or_else_def split: option.splits)
  moreover have "map_of ?d' (?key @ ''.json'') = Some (toWrite p)"
    by (simp add: update_conv')
  ultimately have "\<lparr>name = name p, provider = provider p, env = env p, fileKey = Some ?key\<rparr>
           \<in> set (loadProfiles (Some ?d'))"
    using assms(1,2) by (intro saved_file_loaded)
  then show ?thesis unfolding s by (rule rev_bexI) simp
qed

theorem save_then_load_roundtrip_witness:
  "\<exists>q\<in>set (loadProfiles (saveProfile glm_profile (Some example_dir))).
           name q = ''My GLM'' \<and> provider q = ''glm'' \<and>
           env q = [(''ANTHROPIC_AUTH_TOKEN'', ''secret''), (''ANTHROPIC_MODEL'', ''GLM-4.7'')] \<and>
           fileKey q = Some ''my-glm''"
proof -
  have 1: "name glm_profile \<noteq> []" "provider glm_profile \<noteq> []"
    by (simp_all add: glm_profile_def)
  have 2: "\<forall>k. fileKey glm_profile = Some k \<longrightarrow>
              \<not> endsWith k ''.example'' \<and> CHR ''/'' \<notin> set k"
    by (simp add: glm_profile_def)
  have 3: "slugify ''My GLM'' = ''my-glm''" by code_simp
  show ?thesis
    using save_then_load_roundtrip [OF 1 2, of "Some example_dir"]
    by (simp add: glm_profile_def or_else_def 3)
qed

theorem save_then_load_roundtrip_counterexample:
  "loadProfiles (saveProfile \<lparr>name = [], provider = ''glm'', env = [], fileKey = None\<rparr> (Some []))
     = [\<lparr>name = ''profile'', provider = ''glm'', env = [], fileKey = Some ''profile''\<rparr>]"
  by (simp add: saveProfile_def or_else_def slugify_def toLowerCase_def strip_hyphens_def toWrite_def
      loadProfiles_def readdirSync_def endsWith_def read_profile_def basename_def)

text \<open>
  Claim C4 (as amended). For a profile whose file key, when it has one, is a plain file name
  (it holds no \<open>/\<close>), \<open>saveProfile\<close> of lib/profiles creates or overwrites the file
  \<open><fileKey>.json\<close>, where a missing or empty file key is replaced by the slug of the name
  (\<open>slugify\<close>); it creates the directory if need be. The command line's \<open>saveProfile\<close> does
  the same in an existing profiles directory, with \<open>toProfileFileKey\<close>; without the directory
  it throws and writes nothing. \<open>LocalProfileStore.saveProfile\<close> knows no file keys: for a
  profile whose provider is a plain file name it creates or overwrites \<open><provider>.json\<close> in
  an existing profiles directory, and throws without one. In each case no other file changes.
\<close>

theorem saveProfile_file_name_and_overwrite:
  "((\<forall>k. fileKey p = Some k \<longrightarrow> CHR ''/'' \<notin> set k) \<longrightarrow>
      (\<exists>d'. saveProfile p fs = Some d' \<and>
         writes_file (case fs of None \<Rightarrow> [] | Some d \<Rightarrow> d)
           ((case fileKey p of None \<Rightarrow> slugify (name p)
             | Some k \<Rightarrow> if k = [] then slugify (name p) else k) @ ''.json'')
           (toWrite p) d') \<and>
      (\<exists>d'. cli_saveProfile p (Some d) = Inr (Some d') \<and>
         writes_file d
           ((case fileKey p of None \<Rightarrow> toProfileFileKey (name p)
             | Some k \<Rightarrow> if k = [] then toProfileFileKey (name p) else k) @ ''.json'')
           (toWrite p) d') \<and>
      cli_saveProfile p None = Inl ENOENT) \<and>
   (CHR ''/'' \<notin> set (provider p) \<longrightarrow>
      (\<exists>d'. store_saveProfile p (Some d) = Inr (Some d') \<and>
         writes_file d (provider p @ ''.json'') (toWrite p) d') \<and>
      store_saveProfile p None = Inl ENOENT)"
  by (simp add: saveProfile_def cli_saveProfile_def store_saveProfile_def or_else_def
      update_writes_file)

theorem saveProfile_file_name_and_overwrite_witness:
  "(\<exists>d'. saveProfile glm_profile (Some example_dir) = Some d' \<and>
      map_of d' ''my-glm.json'' = Some (toWrite glm_profile) \<and>
      map_of d' ''zai.json'' = map_of example_dir ''zai.json'') \<and>
   (\<exists>d'. saveProfile (glm_profile\<lparr>fileKey := Some ''zai''\<rparr>) (Some example_dir) = Some d' \<and>
      map_of d' ''zai.json'' = Some (toWrite glm_profile) \<and>
      set (readdirSync d') = set (readdirSync example_dir) \<and> distinct (map fst d')) \<and>
   cli_saveProfile glm_profile None = Inl ENOENT \<and>
   (\<exists>d'. store_saveProfile glm_profile (Some example_dir) = Inr (Some d') \<and>
      map_of d' ''glm.json'' = Some (toWrite glm_profile)) \<and>
   store_saveProfile glm_profile None = Inl ENOENT"
proof -
  have k: "slugify ''My GLM'' = ''my-glm''" by code_simp
  have d: "distinct (map fst example_dir)" by (simp add: example_dir_def)
  have z: "insert ''zai.json'' (set (readdirSync example_dir)) = set (readdirSync example_dir)"
    by (auto simp: example_dir_def readdirSync_def)
  have t: "toWrite (glm_profile\<lparr>fileKey := Some ''zai''\<rparr>) = toWrite glm_profile"
    by (simp add: toWrite_def)
  have fk: "fileKey glm_profile = None" "name glm_profile = ''My GLM''"
    "provider glm_profile = ''glm''"
    by (simp_all add: glm_profile_def)
  have h1: "\<forall>k. fileKey glm_profile = Some k \<longrightarrow> CHR ''/'' \<notin> set k"
    by (simp add: fk)
  have h2: "\<forall>k. fileKey (glm_profile\<lparr>fileKey := Some ''zai''\<rparr>) = Some k \<longrightarrow> CHR ''/'' \<notin> set k"
    by simp
  have h3: "CHR ''/'' \<notin> set (provider glm_profile)"
    by (simp add: fk)
  note T1 = saveProfile_file_name_and_overwrite [of glm_profile "Some example_dir" example_dir]
  from T1 h1
  obtain d1 where d1: "saveProfile glm_profile (Some example_dir) = Some d1"
    "writes_file example_dir ''my-glm.json'' (toWrite glm_profile) d1"
    by (auto simp: fk k)
  from T1 h1 have e1: "cli_saveProfile glm_profile None = Inl ENOENT" by blast
  from T1 h3
  obtain d3 where d3: "store_saveProfile glm_profile (Some example_dir) = Inr (Some d3)"
    "writes_file example_dir ''glm.json'' (toWrite glm_profile) d3"
    by (auto simp: fk)
  from T1 h3 have e3: "store_saveProfile glm_profile None = Inl ENOENT" by blast
  from saveProfile_file_name_and_overwrite
    [of "glm_profile\<lparr>fileKey := Some ''zai''\<rparr>" "Some example_dir" example_dir] h2
  obtain d2 where d2: "saveProfile (glm_profile\<lparr>fileKey := Some ''zai''\<rparr>) (Some example_dir) = Some d2"
    "writes_file example_dir ''zai.json'' (toWrite glm_profile) d2"
    by (auto simp: t)
  from d1(2) have "map_of d1 ''my-glm.json'' = Some (toWrite glm_profile) \<and>
      map_of d1 ''zai.json'' = map_of example_dir ''zai.json''"
    by (simp add: writes_file_def)
  moreover from d2(2) d have "map_of d2 ''zai.json'' = Some (toWrite glm_profile) \<and>
      set (readdirSync d2) = set (readdirSync example_dir) \<and> distinct (map fst d2)"
    by (simp add: writes_file_def z)
  moreover from d3(2) have "map_of d3 ''glm.json'' = Some (toWrite glm_profile)"
    by (simp add: writes_file_def)
  ultimately show ?thesis using d1(1) d2(1) d3(1) e1 e3 by blast
qed

theorem saveProfile_file_name_and_overwrite_counterexample:
  "store_saveProfile \<lparr>name = ''My GLM'', provider = ''glm'', env = [], fileKey = None\<rparr> (Some [])
     = Inr (Some [(''glm.json'', Parsed (Some ''My GLM'') (Some ''glm'') (Some []))]) \<and>
   slugify ''My GLM'' @ ''.json'' = ''my-glm.json''"
proof -
  have "slugify ''My GLM'' = ''my-glm''" by code_simp
  then show ?thesis by (simp add: store_saveProfile_def toWrite_def)
qed

section \<open>Looking a profile up\<close>

lemma store_getProfile_loop_find:
  "store_getProfile_loop lc ps nm =
     find (\<lambda>p. lc (name p) = lc nm \<or> lc (provider p) = lc nm) ps"
  by (induction ps) auto

lemma loadProfiles_sorted: "sorted (map (\<lambda>p. the (fileKey p) @ ''.json'') (loadProfiles fs))"
proof (cases fs)
  case None
  then show ?thesis by (simp add: loadProfiles_def)
next
  case (Some d)
  show ?thesis unfolding Some loadProfiles_files
    by (rule sorted_wrt_filter) simp
qed

text \<open>
  Claim C1 (as amended). Both lookups return the first matching profile of the listing, which
  is in sorted file name order, and nothing when no profile matches. Two strings are equal up
  to case when \<open>String.prototype.toLowerCase\<close> (here \<open>lc\<close>, whatever it does to a string)
  gives the same string for both. For \<open>getProfile\<close> of the command line a profile matches
  when its provider is the key exactly or its name is the key up to case. For
  \<open>LocalProfileStore.getProfile\<close> a profile matches when its name or its provider is the
  key up to case: there the provider is compared case-insensitively as well.
\<close>

theorem getProfile_first_match:
  "(getProfile lc fs key = None \<longleftrightarrow>
      (\<forall>p\<in>set (loadProfiles fs). provider p \<noteq> key \<and> lc (name p) \<noteq> lc key)) \<and>
   (\<forall>p. getProfile lc fs key = Some p \<longleftrightarrow>
      (\<exists>i<length (loadProfiles fs). loadProfiles fs ! i = p \<and>
         (provider p = key \<or> lc (name p) = lc key) \<and>
         (\<forall>j<i. provider (loadProfiles fs ! j) \<noteq> key \<and>
                 lc (name (loadProfiles fs ! j)) \<noteq> lc key))) \<and>
   (store_getProfile lc fs key = None \<longleftrightarrow>
      (\<forall>p\<in>set (listProfiles fs). lc (provider p) \<noteq> lc key \<and>
                                   lc (name p) \<noteq> lc key)) \<and>
   (\<forall>p. store_getProfile lc fs key = Some p \<longleftrightarrow>
      (\<exists>i<length (listProfiles fs). listProfiles fs ! i = p \<and>
         (lc (provider p) = lc key \<or> lc (name p) = lc key) \<and>
         (\<forall>j<i. lc (provider (listProfiles fs ! j)) \<noteq> lc key \<and>
                 lc (name (listProfiles fs ! j)) \<noteq> lc key))) \<and>
   sorted (map (\<lambda>p. the (fileKey p) @ ''.json'') (loadProfiles fs)) \<and>
   listProfiles fs = map (\<lambda>p. p\<lparr>fileKey := None\<rparr>) (loadProfiles fs)"
proof -
  have 1: "getProfile lc fs key = None \<longleftrightarrow>
      (\<forall>p\<in>set (loadProfiles fs). provider p \<noteq> key \<and> lc (name p) \<noteq> lc key)"
    unfolding getProfile_def find_None_iff by blast
  have 2: "getProfile lc fs key = Some p \<longleftrightarrow>
      (\<exists>i<length (loadProfiles fs). loadProfiles fs ! i = p \<and>
         (provider p = key \<or> lc (name p) = lc key) \<and>
         (\<forall>j<i. provider (loadProfiles fs ! j) \<noteq> key \<and>
                 lc (name (loadProfiles fs ! j)) \<noteq> lc key))" for p
    unfolding getProfile_def find_Some_iff by blast
  have 3: "store_getProfile lc fs key = None \<longleftrightarrow>
      (\<forall>p\<in>set (listProfiles fs). lc (provider p) \<noteq> lc key \<and>
                                   lc (name p) \<noteq> lc key)"
    unfolding store_getProfile_def store_getProfile_loop_find find_None_iff by blast
  have 4: "store_getProfile lc fs key = Some p \<longleftrightarrow>
      (\<exists>i<length (listProfiles fs). listProfiles fs ! i = p \<and>
         (lc (provider p) = lc key \<or> lc (name p) = lc key) \<and>
         (\<forall>j<i. lc (provider (listProfiles fs ! j)) \<noteq> lc key \<and>
                 lc (name (listProfiles fs ! j)) \<noteq> lc key))" for p
    unfolding store_getProfile_def store_getProfile_loop_find find_Some_iff by blast
  from 1 2 3 4 loadProfiles_sorted [of fs] listProfiles_loadProfiles [of fs]
  show ?thesis by blast
qed

theorem getProfile_first_match_witness:
  "getProfile toLowerCase (Some example_dir) ''nonexistent'' = None \<and>
   getProfile toLowerCase (Some example_dir) ''MY glm'' =
     Some \<lparr>name = ''My GLM'', provider = ''glm'',
            env = [(''ANTHROPIC_MODEL'', ''GLM-4.7'')], fileKey = Some ''zai''\<rparr> \<and>
   getProfile toLowerCase (Some example_dir) ''glm'' =
     Some \<lparr>name = ''My GLM'', provider = ''glm'',
            env = [(''ANTHROPIC_MODEL'', ''GLM-4.7'')], fileKey = Some ''zai''\<rparr> \<and>
   store_getProfile toLowerCase (Some example_dir) ''my glm'' =
     Some \<lparr>name = ''My GLM'', provider = ''glm'',
            env = [(''ANTHROPIC_MODEL'', ''GLM-4.7'')], fileKey = None\<rparr>"
proof -
  let ?bare = "\<lparr>name = ''bare'', provider = ''bare'', env = [], fileKey = Some ''bare''\<rparr>"
  let ?glm = "\<lparr>name = ''My GLM'', provider = ''glm'',
            env = [(''ANTHROPIC_MODEL'', ''GLM-4.7'')], fileKey = Some ''zai''\<rparr>"
  have L: "loadProfiles (Some example_dir) = [?bare, ?glm]"
    by (simp add: example_dir_def loadProfiles_def readdirSync_def endsWith_def read_profile_def
        or_else_def basename_def)
  have low: "toLowerCase ''nonexistent'' = ''nonexistent''" "toLowerCase ''bare'' = ''bare''"
    "toLowerCase ''My GLM'' = ''my glm''" "toLowerCase ''MY glm'' = ''my glm''"
    "toLowerCase ''glm'' = ''glm''" "toLowerCase ''my glm'' = ''my glm''"
    by code_simp+
  note T = getProfile_first_match [of toLowerCase "Some example_dir"]
  have a: "getProfile toLowerCase (Some example_dir) ''nonexistent'' = None"
    using T [of "''nonexistent''"] unfolding L by (simp add: low)
  have m: "\<exists>i<length [?bare, ?glm]. [?bare, ?glm] ! i = ?glm \<and>
         (provider ?glm = k \<or> toLowerCase (name ?glm) = toLowerCase k) \<and>
         (\<forall>j<i. provider ([?bare, ?glm] ! j) \<noteq> k \<and>
                 toLowerCase (name ([?bare, ?glm] ! j)) \<noteq> toLowerCase k)"
    if "k = ''MY glm'' \<or> k = ''glm''" for k
    using that by (intro exI [of _ 1]) (auto simp: low)
  have b: "getProfile toLowerCase (Some example_dir) ''MY glm'' = Some ?glm"
    using T [of "''MY glm''"] m [of "''MY glm''"] unfolding L by blast
  have c: "getProfile toLowerCase (Some example_dir) ''glm'' = Some ?glm"
    using T [of "''glm''"] m [of "''glm''"] unfolding L by blast
  have S: "listProfiles (Some example_dir) = [?bare\<lparr>fileKey := None\<rparr>, ?glm\<lparr>fileKey := None\<rparr>]"
    using T [of "''glm''"] unfolding L by simp
  have "\<exists>i<length [?bare\<lparr>fileKey := None\<rparr>, ?glm\<lparr>fileKey := None\<rparr>].
         [?bare\<lparr>fileKey := None\<rparr>, ?glm\<lparr>fileKey := None\<rparr>] ! i = ?glm\<lparr>fileKey := None\<rparr> \<and>
         (toLowerCase (provider (?glm\<lparr>fileKey := None\<rparr>)) = toLowerCase ''my glm'' \<or>
          toLowerCase (name (?glm\<lparr>fileKey := None\<rparr>)) = toLowerCase ''my glm'') \<and>
         (\<forall>j<i. toLowerCase (provider ([?bare\<lparr>fileKey := None\<rparr>, ?glm\<lparr>fileKey := None\<rparr>] ! j)) \<noteq> toLowerCase ''my glm'' \<and>
                 toLowerCase (name ([?bare\<lparr>fileKey := None\<rparr>, ?glm\<lparr>fileKey := None\<rparr>] ! j)) \<noteq> toLowerCase ''my glm'')"
    by (intro exI [of _ 1]) (auto simp: low)
  then have d: "store_getProfile toLowerCase (Some example_dir) ''my glm'' = Some (?glm\<lparr>fileKey := None\<rparr>)"
    using T [of "''my glm''"] unfolding S by blast
  from a b c d show ?thesis by simp
qed

theorem getProfile_first_match_counterexample:
  "listProfiles (Some [(''zai.json'', Parsed (Some ''My GLM'') (Some ''glm'') None)]) =
     [\<lparr>name = ''My GLM'', provider = ''glm'', env = [], fileKey = None\<rparr>] \<and>
   store_getProfile toLowerCase (Some [(''zai.json'', Parsed (Some ''My GLM'') (Some ''glm'') None)]) ''GLM'' =
     Some \<lparr>name = ''My GLM'', provider = ''glm'', env = [], fileKey = None\<rparr> \<and>
   ''glm'' \<noteq> ''GLM'' \<and> toLowerCase ''My GLM'' \<noteq> toLowerCase ''GLM''"
proof -
  have low: "toLowerCase ''My GLM'' = ''my glm''" "toLowerCase ''GLM'' = ''glm''"
    "toLowerCase ''glm'' = ''glm''"
    by code_simp+
  have L: "listProfiles (Some [(''zai.json'', Parsed (Some ''My GLM'') (Some ''glm'') None)]) =
     [\<lparr>name = ''My GLM'', provider = ''glm'', env = [], fileKey = None\<rparr>]"
    by (simp add: listProfiles_def readdirSync_def endsWith_def read_profile_def
        or_else_def basename_def)
  show ?thesis
    unfolding store_getProfile_def L by (simp add: low)
qed

section \<open>Deleting a profile\<close>

lemma in_listProfiles_iff:
  "x \<in> set (listProfiles (Some d)) \<longleftrightarrow>
     (\<exists>fn\<in>set (readdirSync d). is_profile_file fn \<and>
        (\<exists>q. read_profile d fn = Some q \<and> x = q\<lparr>fileKey := None\<rparr>))"
proof -
  have "x \<in> set (listProfiles (Some d)) \<longleftrightarrow>
          (\<exists>q\<in>set (loadProfiles (Some d)). x = q\<lparr>fileKey := None\<rparr>)"
    unfolding listProfiles_loadProfiles by auto
  also have "\<dots> \<longleftrightarrow> (\<exists>q. (\<exists>fn\<in>set (readdirSync d). is_profile_file fn \<and>
        read_profile d fn = Some q) \<and> x = q\<lparr>fileKey := None\<rparr>)"
    by (simp only: Bex_def in_loadProfiles_iff)
  also have "\<dots> \<longleftrightarrow> (\<exists>fn\<in>set (readdirSync d). is_profile_file fn \<and>
        (\<exists>q. read_profile d fn = Some q \<and> x = q\<lparr>fileKey := None\<rparr>))"
    by blast
  finally show ?thesis .
qed

lemma store_getProfile_in: "store_getProfile lc fs key = Some p \<Longrightarrow> p \<in> set (listProfiles fs)"
  unfolding store_getProfile_def store_getProfile_loop_find find_Some_iff by auto

lemma store_getProfile_None_fs: "store_getProfile lc None key = None"
  by (simp add: store_getProfile_def listProfiles_def)

lemma store_delete_unfold:
  "store_getProfile lc fs key = Some p \<Longrightarrow>
   store_deleteProfile lc key fs =
     (True, map_option (filter (\<lambda>(fn, b). fn \<noteq> provider p @ ''.json'')) fs)"
proof -
  assume g: "store_getProfile lc fs key = Some p"
  then obtain d where fs: "fs = Some d"
    using store_getProfile_None_fs by (cases fs) auto
  let ?f = "provider p @ ''.json''"
  have del: "AList.delete ?f d = filter (\<lambda>(fn, b). fn \<noteq> ?f) d"
    by (simp add: AList.delete_eq case_prod_unfold eq_commute [of ?f])
  have "?f \<notin> set (readdirSync d) \<Longrightarrow> filter (\<lambda>(fn, b). fn \<noteq> ?f) d = d"
    by (auto simp: filter_id_conv readdirSync_def intro: rev_image_eqI)
  then show ?thesis
    using g unfolding fs
    by (cases "?f \<in> set (readdirSync d)")
       (simp_all add: store_deleteProfile_def existsSync_def unlinkSync_def del Let_def)
qed

lemma read_profile_delete:
  "fn \<noteq> f \<Longrightarrow> read_profile (AList.delete f d) fn = read_profile d fn"
  by (simp add: read_profile_def)

lemma readdir_delete:
  "set (readdirSync (AList.delete f d)) = set (readdirSync d) - {f}"
  by (simp add: readdirSync_def AList.delete_keys)

lemma provider_named_file:
  assumes "provider_named d" "fn \<in> set (readdirSync d)" "is_profile_file fn"
    "read_profile d fn = Some q"
  shows "provider q @ ''.json'' = fn"
  using assms unfolding provider_named_def by fastforce

lemma store_delete_own_file:
  assumes pn: "provider_named d" and g: "store_getProfile lc (Some d) key = Some p"
  shows "provider p @ ''.json'' \<in> set (readdirSync d)"
    and "read_profile d (provider p @ ''.json'') = Some (p\<lparr>fileKey := Some (provider p)\<rparr>)"
    and "set (listProfiles (Some (AList.delete (provider p @ ''.json'') d))) =
           set (listProfiles (Some d)) - {p}"
proof -
  let ?f = "provider p @ ''.json''"
  from store_getProfile_in [OF g] obtain fn q where
    fn: "fn \<in> set (readdirSync d)" "is_profile_file fn" "read_profile d fn = Some q"
    and p: "p = q\<lparr>fileKey := None\<rparr>"
    unfolding in_listProfiles_iff by blast
  from provider_named_file [OF pn fn] p have f: "fn = ?f" by simp
  from p have pp: "p\<lparr>fileKey := None\<rparr> = p" by simp
  from fn(1) f show "?f \<in> set (readdirSync d)" by simp
  have "fileKey q = Some (provider p)"
    using read_profile_fileKey [OF fn(3)] f by (simp add: basename_append)
  with p have "q = p\<lparr>fileKey := Some (provider p)\<rparr>" by simp
  with fn(3) f show rp: "read_profile d ?f = Some (p\<lparr>fileKey := Some (provider p)\<rparr>)" by simp
  show "set (listProfiles (Some (AList.delete ?f d))) = set (listProfiles (Some d)) - {p}"
  proof (intro set_eqI iffI)
    fix x assume "x \<in> set (listProfiles (Some (AList.delete ?f d)))"
    then obtain fn' r where r: "fn' \<in> set (readdirSync d)" "fn' \<noteq> ?f" "is_profile_file fn'"
      "read_profile (AList.delete ?f d) fn' = Some r" "x = r\<lparr>fileKey := None\<rparr>"
      unfolding in_listProfiles_iff readdir_delete by blast
    then have r': "read_profile d fn' = Some r" by (simp add: read_profile_delete)
    from provider_named_file [OF pn r(1,3) r'] r(2) have "provider r \<noteq> provider p" by auto
    with r(5) have "x \<noteq> p" by auto
    moreover have "x \<in> set (listProfiles (Some d))"
      unfolding in_listProfiles_iff using r(1,3,5) r' by blast
    ultimately show "x \<in> set (listProfiles (Some d)) - {p}" by simp
  next
    fix x assume "x \<in> set (listProfiles (Some d)) - {p}"
    then have xin: "x \<in> set (listProfiles (Some d))" and xp: "x \<noteq> p" by auto
    from xin obtain fn' r where r: "fn' \<in> set (readdirSync d)" "is_profile_file fn'"
      "read_profile d fn' = Some r" "x = r\<lparr>fileKey := None\<rparr>"
      unfolding in_listProfiles_iff by blast
    have "fn' \<noteq> ?f"
    proof
      assume "fn' = ?f"
      with r(3) rp have "r = p\<lparr>fileKey := Some (provider p)\<rparr>" by simp
      with r(4) xp pp show False by simp
    qed
    with r show "x \<in> set (listProfiles (Some (AList.delete ?f d)))"
      unfolding in_listProfiles_iff readdir_delete by (auto simp: read_profile_delete)
  qed
qed

text \<open>
  Claim C7 (as amended). \<open>deleteProfile\<close> resolves the key with the store's \<open>getProfile\<close>,
  which compares with \<open>String.prototype.toLowerCase\<close> (here \<open>lc\<close>, whatever it does to a
  string). Without a match it returns \<open>false\<close> and changes nothing. With a match whose
  provider is a plain file name (it holds no \<open>/\<close>, so that \<open><provider>.json\<close> is an entry of
  the profiles directory and not a path out of it) it returns \<open>true\<close> and removes the file
  \<open><provider>.json\<close> of the matched profile if there is one, touching no other file. In a
  directory whose profile files are named after their providers that file is the one the
  matched profile was read from, and afterwards exactly that profile is gone from the
  listing. The result tells whether a profile matched, not whether a file was removed.
\<close>

theorem store_deleteProfile_result:
  "(store_getProfile lc fs key = None \<longrightarrow> store_deleteProfile lc key fs = (False, fs)) \<and>
   (\<forall>p. store_getProfile lc fs key = Some p \<and> CHR ''/'' \<notin> set (provider p) \<longrightarrow>
      store_deleteProfile lc key fs =
        (True, map_option (filter (\<lambda>(fn, b). fn \<noteq> provider p @ ''.json'')) fs)) \<and>
   (\<forall>d p. fs = Some d \<and> provider_named d \<and> store_getProfile lc fs key = Some p \<and>
          CHR ''/'' \<notin> set (provider p) \<longrightarrow>
      provider p @ ''.json'' \<in> set (readdirSync d) \<and>
      read_profile d (provider p @ ''.json'') = Some (p\<lparr>fileKey := Some (provider p)\<rparr>) \<and>
      set (listProfiles (snd (store_deleteProfile lc key fs))) = set (listProfiles fs) - {p})"
proof -
  have 1: "store_getProfile lc fs key = None \<longrightarrow> store_deleteProfile lc key fs = (False, fs)"
    by (simp add: store_deleteProfile_def)
  have 3: "provider p @ ''.json'' \<in> set (readdirSync d) \<and>
      read_profile d (provider p @ ''.json'') = Some (p\<lparr>fileKey := Some (provider p)\<rparr>) \<and>
      set (listProfiles (snd (store_deleteProfile lc key fs))) = set (listProfiles fs) - {p}"
    if h: "fs = Some d" "provider_named d" "store_getProfile lc fs key = Some p" for d p
  proof -
    have g: "store_getProfile lc (Some d) key = Some p" using h by simp
    have "snd (store_deleteProfile lc key fs) = Some (AList.delete (provider p @ ''.json'') d)"
      using store_delete_unfold [OF h(3)] h(1)
      by (simp add: AList.delete_eq case_prod_unfold eq_commute [of "provider p @ ''.json''"])
    with store_delete_own_file [OF h(2) g] h(1) show ?thesis by simp
  qed
  from 1 store_delete_unfold 3 show ?thesis by blast
qed

theorem store_deleteProfile_result_witness:
  "store_deleteProfile toLowerCase ''nonexistent'' (Some store_dir) = (False, Some store_dir) \<and>
   store_deleteProfile toLowerCase ''my glm'' (Some store_dir) =
     (True, Some [(''claude.json'',
                   Parsed None None (Some [(''ANTHROPIC_MODEL'', ''claude-sonnet-4-20250514'')])),
                  (''claude.example.json'', Parsed (Some ''Example'') (Some ''glm'') None)]) \<and>
   set (listProfiles (snd (store_deleteProfile toLowerCase ''my glm'' (Some store_dir)))) =
     set (listProfiles (Some store_dir)) -
       {\<lparr>name = ''My GLM'', provider = ''glm'', env = [], fileKey = None\<rparr>}"
proof -
  let ?glm = "\<lparr>name = ''My GLM'', provider = ''glm'', env = [], fileKey = None\<rparr>"
  have n: "store_getProfile toLowerCase (Some store_dir) ''nonexistent'' = None" by code_simp
  have g: "store_getProfile toLowerCase (Some store_dir) ''my glm'' = Some ?glm" by code_simp
  have pn: "provider_named store_dir" by code_simp
  have sl: "CHR ''/'' \<notin> set (provider ?glm)" by simp
  note T = store_deleteProfile_result [of toLowerCase "Some store_dir"]
  have a: "store_deleteProfile toLowerCase ''nonexistent'' (Some store_dir) = (False, Some store_dir)"
    using T [of "''nonexistent''"] n by blast
  have "store_deleteProfile toLowerCase ''my glm'' (Some store_dir) =
      (True, map_option (filter (\<lambda>(fn, b). fn \<noteq> provider ?glm @ ''.json'')) (Some store_dir))"
    using T [of "''my glm''"] g sl by blast
  then have b: "store_deleteProfile toLowerCase ''my glm'' (Some store_dir) =
     (True, Some [(''claude.json'',
                   Parsed None None (Some [(''ANTHROPIC_MODEL'', ''claude-sonnet-4-20250514'')])),
                  (''claude.example.json'', Parsed (Some ''Example'') (Some ''glm'') None)])"
    by (simp add: store_dir_def)
  have c: "set (listProfiles (snd (store_deleteProfile toLowerCase ''my glm'' (Some store_dir)))) =
     set (listProfiles (Some store_dir)) - {?glm}"
    using T [of "''my glm''"] g pn sl by blast
  from a b c show ?thesis by blast
qed

theorem store_deleteProfile_result_counterexample:
  "store_deleteProfile toLowerCase ''mine'' (Some [(''my.json'', Parsed (Some ''Mine'') (Some ''glm'') None)]) =
     (True, Some [(''my.json'', Parsed (Some ''Mine'') (Some ''glm'') None)])"
  by code_simp

section \<open>The editor flows\<close>

lemma configureProvider_at_token:
  assumes "profile_name_step lc tr prov mode fs ks0 = Some ((n, fk), ks1)"
    and "prompt ks1 = Some (u, ks2)"
    and "auth_method_step prov ks2 = Some (Chosen m, ks3)"
    and "prompt ks3 = Some (t, ks4)"
  shows "tr t = [] \<Longrightarrow> configureProvider lc tr prov mode fs ks0 = Some (Cancelled, fs, ks4)"
    and "tr t \<noteq> [] \<Longrightarrow> prompt ks4 = Some (mi, ks5) \<Longrightarrow> prompt ks5 = Some (ti, ks6) \<Longrightarrow>
         configureProvider lc tr prov mode fs ks0 =
           (case cli_saveProfile
                   \<lparr>name = n, provider = id_p prov,
                    env = set_env tr t (if tr u \<noteq> [] then tr u else baseUrl prov)
                            (or_else (Some (tr mi)) (defaultModel prov))
                            (or_else (Some (tr ti)) ''3000000'')
                            (env (case getProfileByName lc fs n of
                                    None \<Rightarrow> \<lparr>name = n, provider = id_p prov, env = [], fileKey = fk\<rparr>
                                  | Some e \<Rightarrow> e)),
                    fileKey = fk\<rparr> fs of
              Inl e \<Rightarrow> Some (Threw e, fs, ks6)
            | Inr fs' \<Rightarrow> Some (Saved, fs', ks6))"
  using assms by (simp_all add: configureProvider_def Let_def)

lemma configure_loop_enter:
  "configure_loop lc tr (Suc i) fs (enter # ks) =
     (case provider_flow lc tr Edit i fs ks of
        None \<Rightarrow> None
      | Some (e, fs', ks') \<Rightarrow>
          if returned e then configure_loop lc tr (Suc i) fs' ks' else Some (e, fs', ks'))"
  by (simp add: enter_def)

lemma addNewProfileFlow_loop_enter:
  "addNewProfileFlow_loop lc tr (Suc i) fs (enter # ks) =
     (case provider_flow lc tr Add i fs ks of
        None \<Rightarrow> None
      | Some (e, fs', ks') \<Rightarrow>
          if returned e then addNewProfileFlow_loop lc tr (Suc i) fs' ks' else Some (e, fs', ks'))"
  by (simp add: enter_def)

lemma addCustomProfile_at_provider:
  assumes "provider_name_step tr ks = Some (pn, kp1)"
    and "prompt kp1 = Some (bu, kp2)" "tr bu \<noteq> []"
    and "prompt kp2 = Some (dm, kp3)" "prompt kp3 = Some (au, kp4)" "prompt kp4 = Some (ai, ks0)"
  shows "addCustomProfile lc tr fs ks =
           configureProvider lc tr (custom_provider tr pn bu dm au ai) Add fs ks0"
  using assms by (simp add: addCustomProfile_def)

lemma addNewProfileFlow_loop_enter_custom:
  "addNewProfileFlow_loop lc tr 0 fs (enter # ks) =
     (case addCustomProfile lc tr fs ks of
        None \<Rightarrow> None
      | Some (e, fs', ks') \<Rightarrow>
          if returned e then addNewProfileFlow_loop lc tr 0 fs' ks' else Some (e, fs', ks'))"
  by (simp add: enter_def)

lemma App_input_return:
  assumes "current_view r \<noteq> MainView" "\<not> escape_k key"
    and "input_k key = [] \<or> input_k key = [CHR 0x0D] \<or> input_k key = [CHR 0x0A]"
  shows "App_input key r a = a"
  using assms by (auto simp: App_input_def)

lemma editor_input_return_blank:
  assumes "selectedProfile r = Some p" "tr (v_token (values_e (editor r))) = []"
    and "return_k key" "\<not> escape_k key"
  shows "editor_input tr key r a =
           a\<lparr>editor := (editor r)\<lparr>error_msg := Some ''Token is required''\<rparr>\<rparr>"
  using assms by (simp add: editor_input_def ProfileEditorView_input_def)

text \<open>
  Claim C8 (as amended). In the command line's \<open>configureProvider\<close>, a run that gets to the
  token prompt and answers it with nothing (or with text that \<open>String.prototype.trim\<close>, here
  \<open>tr\<close>, makes empty, or with Escape) is cancelled: the files are as before, and the menu
  that started it goes on with the keys that follow, as if the editor had not run. That
  menu is the configure view when a provider of the table is edited, and the provider chooser
  when a provider of the table or a custom provider (through \<open>addCustomProfile\<close>) is added.
  The first command line's \<open>configureProvider\<close> likewise returns as cancelled with the files
  as before. In the ink \<open>ProfileEditorView\<close>, which \<open>App\<close> shows over a view other than the
  main one, Return with an empty token does not leave the editor: it sets the message
  \<open>Token is required\<close>, nothing is saved, and the view stays, in whichever order the
  handlers of \<open>App\<close> and of the editor get the key.
\<close>

theorem empty_token_cancels:
  "(\<forall>nk ks1 u ks2 m ks3 t ks4.
      profile_name_step lc tr prov mode fs ks0 = Some (nk, ks1) \<and> prompt ks1 = Some (u, ks2) \<and>
      auth_method_step prov ks2 = Some (Chosen m, ks3) \<and> prompt ks3 = Some (t, ks4) \<and>
      tr t = []
      \<longrightarrow> configureProvider lc tr prov mode fs ks0 = Some (Cancelled, fs, ks4) \<and>
          (\<forall>i<length KNOWN_PROVIDERS. prov = KNOWN_PROVIDERS ! i \<longrightarrow>
             (mode = Edit \<longrightarrow>
                configure_loop lc tr (Suc i) fs (enter # ks0) = configure_loop lc tr (Suc i) fs ks4) \<and>
             (mode = Add \<longrightarrow>
                addNewProfileFlow_loop lc tr (Suc i) fs (enter # ks0) =
                addNewProfileFlow_loop lc tr (Suc i) fs ks4)) \<and>
          (\<forall>ks pn kp1 bu kp2 dm kp3 au kp4 ai.
             mode = Add \<and> provider_name_step tr ks = Some (pn, kp1) \<and>
             prompt kp1 = Some (bu, kp2) \<and> tr bu \<noteq> [] \<and> prompt kp2 = Some (dm, kp3) \<and>
             prompt kp3 = Some (au, kp4) \<and> prompt kp4 = Some (ai, ks0) \<and>
             prov = custom_provider tr pn bu dm au ai
             \<longrightarrow> addCustomProfile lc tr fs ks = Some (Cancelled, fs, ks4) \<and>
                 addNewProfileFlow_loop lc tr 0 fs (enter # ks) =
                 addNewProfileFlow_loop lc tr 0 fs ks4)) \<and>
   (\<forall>u ks1 a ks2 t ks3.
      prompt ks0 = Some (u, ks1) \<and> prompt ks1 = Some (a, ks2) \<and> prompt ks2 = Some (t, ks3) \<and>
      tr t = []
      \<longrightarrow> configureProvider_v1 lc tr prov fs ks0 = Some (Cancelled, fs, ks3)) \<and>
   (\<forall>p. running a \<and> selectedProfile a = Some p \<and> current_view a \<noteq> MainView \<and>
        tr (v_token (values_e (editor a))) = [] \<and> return_k key \<and> \<not> escape_k key \<and>
        (input_k key = [] \<or> input_k key = [CHR 0x0D] \<or> input_k key = [CHR 0x0A])
      \<longrightarrow> editor_key tr editorFirst key a =
            a\<lparr>editor := (editor a)\<lparr>error_msg := Some ''Token is required''\<rparr>\<rparr>)"
proof (intro conjI allI impI)
  fix nk ks1 u ks2 m ks3 t ks4
  assume h: "profile_name_step lc tr prov mode fs ks0 = Some (nk, ks1) \<and> prompt ks1 = Some (u, ks2) \<and>
      auth_method_step prov ks2 = Some (Chosen m, ks3) \<and> prompt ks3 = Some (t, ks4) \<and>
      tr t = []"
  obtain n fk where nk: "nk = (n, fk)" by (cases nk)
  from h show c: "configureProvider lc tr prov mode fs ks0 = Some (Cancelled, fs, ks4)"
    unfolding nk by (intro configureProvider_at_token(1)) auto
  {
    fix i assume i: "i < length KNOWN_PROVIDERS" "prov = KNOWN_PROVIDERS ! i"
    {
      assume "mode = Edit"
      with c i show "configure_loop lc tr (Suc i) fs (enter # ks0) = configure_loop lc tr (Suc i) fs ks4"
        by (subst configure_loop_enter) (simp add: provider_flow_def)
    }
    {
      assume "mode = Add"
      with c i show "addNewProfileFlow_loop lc tr (Suc i) fs (enter # ks0) =
                  addNewProfileFlow_loop lc tr (Suc i) fs ks4"
        by (subst addNewProfileFlow_loop_enter) (simp add: provider_flow_def)
    }
  }
  fix ks pn kp1 bu kp2 dm kp3 au kp4 ai
  assume g: "mode = Add \<and> provider_name_step tr ks = Some (pn, kp1) \<and>
             prompt kp1 = Some (bu, kp2) \<and> tr bu \<noteq> [] \<and> prompt kp2 = Some (dm, kp3) \<and>
             prompt kp3 = Some (au, kp4) \<and> prompt kp4 = Some (ai, ks0) \<and>
             prov = custom_provider tr pn bu dm au ai"
  then have "addCustomProfile lc tr fs ks = configureProvider lc tr prov Add fs ks0"
    by (simp add: addCustomProfile_at_provider)
  with c g show ac: "addCustomProfile lc tr fs ks = Some (Cancelled, fs, ks4)" by simp
  then show "addNewProfileFlow_loop lc tr 0 fs (enter # ks) = addNewProfileFlow_loop lc tr 0 fs ks4"
    by (subst addNewProfileFlow_loop_enter_custom) simp
next
  fix u ks1 a' ks2 t ks3
  assume "prompt ks0 = Some (u, ks1) \<and> prompt ks1 = Some (a', ks2) \<and> prompt ks2 = Some (t, ks3) \<and>
      tr t = []"
  then show "configureProvider_v1 lc tr prov fs ks0 = Some (Cancelled, fs, ks3)"
    by (simp add: configureProvider_v1_def)
next
  fix p
  assume h: "running a \<and> selectedProfile a = Some p \<and> current_view a \<noteq> MainView \<and>
        tr (v_token (values_e (editor a))) = [] \<and> return_k key \<and> \<not> escape_k key \<and>
        (input_k key = [] \<or> input_k key = [CHR 0x0D] \<or> input_k key = [CHR 0x0A])"
  then have 1: "App_input key a b = b" for b
    by (intro App_input_return) auto
  from h have 2: "editor_input tr key a b =
      b\<lparr>editor := (editor a)\<lparr>error_msg := Some ''Token is required''\<rparr>\<rparr>" for b
    by (intro editor_input_return_blank) auto
  from h show "editor_key tr editorFirst key a =
            a\<lparr>editor := (editor a)\<lparr>error_msg := Some ''Token is required''\<rparr>\<rparr>"
    by (simp add: editor_key_def 1 2)
qed

theorem empty_token_cancels_witness:
  "configureProvider toLowerCase trim (KNOWN_PROVIDERS ! 0) Edit (Some example_dir)
     [enter, enter, enter, enter, escape_key] = Some (Cancelled, Some example_dir, [escape_key]) \<and>
   configure_loop toLowerCase trim (Suc 0) (Some example_dir)
     (enter # [enter, enter, enter, enter, escape_key]) = Some (Back, Some example_dir, []) \<and>
   addNewProfileFlow_loop toLowerCase trim 0 (Some example_dir)
     (enter # [char_key (CHR ''x''), enter, char_key (CHR ''u''), enter, enter, enter, enter,
               enter, enter, enter, escape_key]) = Some (Back, Some example_dir, []) \<and>
   configureProvider_v1 toLowerCase trim (KNOWN_PROVIDERS ! 0) (Some example_dir) [enter, enter, enter] =
     Some (Cancelled, Some example_dir, []) \<and>
   editor_key trim True ink_return editing_app =
     editing_app\<lparr>editor := (editor editing_app)\<lparr>error_msg := Some ''Token is required''\<rparr>\<rparr> \<and>
   editor_key trim False ink_return editing_app =
     editing_app\<lparr>editor := (editor editing_app)\<lparr>error_msg := Some ''Token is required''\<rparr>\<rparr>"
proof -
  let ?ks0 = "[enter, enter, enter, enter, escape_key]"
  let ?fs = "Some example_dir"
  have 1: "profile_name_step toLowerCase trim (KNOWN_PROVIDERS ! 0) Edit ?fs ?ks0 =
             Some ((''Anthropic Claude'', Some ''anthropic-claude''), [enter, enter, enter, escape_key])"
    by code_simp
  have 2: "prompt [enter, enter, enter, escape_key] = Some ([], [enter, enter, escape_key])"
    by code_simp
  have 3: "auth_method_step (KNOWN_PROVIDERS ! 0) [enter, enter, escape_key] =
             Some (Chosen ''api'', [enter, escape_key])"
    by code_simp
  have 4: "prompt [enter, escape_key] = Some ([], [escape_key])" by code_simp
  have 5: "trim [] = []" by (simp add: trim_def)
  have 6: "0 < length KNOWN_PROVIDERS" by (simp add: KNOWN_PROVIDERS_def)
  have 7: "configure_loop toLowerCase trim (Suc 0) ?fs [escape_key] = Some (Back, ?fs, [])"
    by (simp add: escape_key_def)
  have 8: "prompt [enter, enter, enter] = Some ([], [enter, enter])"
    "prompt [enter, enter] = Some ([], [enter])" "prompt [enter] = Some ([], [])"
    by code_simp+
  have 9: "running editing_app" "selectedProfile editing_app = Some bare_profile"
    "current_view editing_app \<noteq> MainView"
    "trim (v_token (values_e (editor editing_app))) = []"
    "return_k ink_return" "\<not> escape_k ink_return" "input_k ink_return = [CHR 0x0D]"
    by code_simp+
  note T = empty_token_cancels [of toLowerCase trim "KNOWN_PROVIDERS ! 0" Edit ?fs ?ks0]
  from T 1 2 3 4 5 have a: "configureProvider toLowerCase trim (KNOWN_PROVIDERS ! 0) Edit ?fs ?ks0 =
      Some (Cancelled, ?fs, [escape_key])"
    by blast
  from T 1 2 3 4 5 6 have "configure_loop toLowerCase trim (Suc 0) ?fs (enter # ?ks0) =
      configure_loop toLowerCase trim (Suc 0) ?fs [escape_key]"
    by blast
  with 7 have b: "configure_loop toLowerCase trim (Suc 0) ?fs (enter # ?ks0) = Some (Back, ?fs, [])" by simp
  let ?cp = "custom_provider trim ''x'' ''u'' [] [] []"
  let ?kz = "[enter, enter, enter, escape_key]"
  let ?kall = "[char_key (CHR ''x''), enter, char_key (CHR ''u''), enter, enter, enter, enter,
              enter, enter, enter, escape_key]"
  have c1: "profile_name_step toLowerCase trim ?cp Add ?fs ?kz =
      Some ((''x'', Some ''x''), [enter, enter, escape_key])"
    by code_simp
  have c2: "prompt [enter, enter, escape_key] = Some ([], [enter, escape_key])" by code_simp
  have c3: "auth_method_step ?cp [enter, escape_key] = Some (Chosen ''api'', [enter, escape_key])"
    by code_simp
  have c4: "provider_name_step trim ?kall =
      Some (''x'', [char_key (CHR ''u''), enter, enter, enter, enter, enter, enter, enter, escape_key])"
    by code_simp
  have c5: "prompt [char_key (CHR ''u''), enter, enter, enter, enter, enter, enter, enter, escape_key] =
      Some (''u'', [enter, enter, enter, enter, enter, enter, escape_key])"
    "trim ''u'' \<noteq> []"
    "prompt [enter, enter, enter, enter, enter, enter, escape_key] =
      Some ([], [enter, enter, enter, enter, enter, escape_key])"
    "prompt [enter, enter, enter, enter, enter, escape_key] =
      Some ([], [enter, enter, enter, enter, escape_key])"
    "prompt [enter, enter, enter, enter, escape_key] = Some ([], ?kz)"
    by code_simp+
  have c6: "addNewProfileFlow_loop toLowerCase trim 0 ?fs [escape_key] = Some (Back, ?fs, [])"
    by (simp add: escape_key_def)
  have H: "profile_name_step toLowerCase trim ?cp Add ?fs ?kz =
        Some ((''x'', Some ''x''), [enter, enter, escape_key]) \<and>
      prompt [enter, enter, escape_key] = Some ([], [enter, escape_key]) \<and>
      auth_method_step ?cp [enter, escape_key] = Some (Chosen ''api'', [enter, escape_key]) \<and>
      prompt [enter, escape_key] = Some ([], [escape_key]) \<and> trim [] = []"
    using c1 c2 c3 4 5 by simp
  have G: "Add = Add \<and> provider_name_step trim ?kall =
        Some (''x'', [char_key (CHR ''u''), enter, enter, enter, enter, enter, enter, enter, escape_key]) \<and>
      prompt [char_key (CHR ''u''), enter, enter, enter, enter, enter, enter, enter, escape_key] =
        Some (''u'', [enter, enter, enter, enter, enter, enter, escape_key]) \<and>
      trim ''u'' \<noteq> [] \<and>
      prompt [enter, enter, enter, enter, enter, enter, escape_key] =
        Some ([], [enter, enter, enter, enter, enter, escape_key]) \<and>
      prompt [enter, enter, enter, enter, enter, escape_key] =
        Some ([], [enter, enter, enter, enter, escape_key]) \<and>
      prompt [enter, enter, enter, enter, escape_key] = Some ([], ?kz) \<and>
      ?cp = custom_provider trim ''x'' ''u'' [] [] []"
    using c4 c5 by simp
  from empty_token_cancels [of toLowerCase trim ?cp Add ?fs ?kz, THEN conjunct1, rule_format, OF H,
      THEN conjunct2, THEN conjunct2, rule_format, OF G]
  have "addNewProfileFlow_loop toLowerCase trim 0 ?fs (enter # ?kall) =
      addNewProfileFlow_loop toLowerCase trim 0 ?fs [escape_key]"
    by (rule conjunct2)
  with c6 have c: "addNewProfileFlow_loop toLowerCase trim 0 ?fs (enter # ?kall) = Some (Back, ?fs, [])"
    by simp
  from empty_token_cancels [of toLowerCase trim "KNOWN_PROVIDERS ! 0" Edit ?fs "[enter, enter, enter]"] 8 5
  have d: "configureProvider_v1 toLowerCase trim (KNOWN_PROVIDERS ! 0) ?fs [enter, enter, enter] =
      Some (Cancelled, ?fs, [])"
    by blast
  have K: "running editing_app \<and> selectedProfile editing_app = Some bare_profile \<and>
      current_view editing_app \<noteq> MainView \<and>
      trim (v_token (values_e (editor editing_app))) = [] \<and>
      return_k ink_return \<and> \<not> escape_k ink_return \<and>
      (input_k ink_return = [] \<or> input_k ink_return = [CHR 0x0D] \<or>
       input_k ink_return = [CHR 0x0A])"
    using 9 by simp
  note E = empty_token_cancels [of _ trim _ _ _ _ editing_app ink_return,
      THEN conjunct2, THEN conjunct2, rule_format, OF K]
  from a b c d E [of True] E [of False] show ?thesis by blast
qed

theorem empty_token_cancels_counterexample:
  "selectedProfile (editor_key trim True ink_return editing_app) = Some bare_profile \<and>
   error_msg (editor (editor_key trim True ink_return editing_app)) = Some ''Token is required'' \<and>
   viewStack (editor_key trim True ink_return editing_app) = [MainView, ConfigureView] \<and>
   disk (editor_key trim True ink_return editing_app) = Some example_dir \<and>
   editor_key trim False ink_return editing_app = editor_key trim True ink_return editing_app \<and>
   v_token (values_e (editor editing_app)) = []"
  by (simp add: editor_key_def editor_input_def App_input_def current_view_def
      ProfileEditorView_input_def editing_app_def
      handleConfigureProfile_def initial_editor_def ink_return_def bare_profile_def
      existingToken_def or_else_def trim_def)



lemma getProfile_v1_in: "getProfile_v1 lc fs key = Some p \<Longrightarrow> p \<in> set (listProfiles fs)"
  unfolding getProfile_v1_def find_Some_iff by auto




end
